theory Spec2Isabelle
  imports Main "HOL-Library.Word" "HOL-Library.Sublist" "HOL-Library.Char_ord"
    "HOL-Library.List_Lexorder" "HOL-Library.Multiset"
begin

unbundle bit_operations_syntax

section \<open>The upload handler of upload-function.py\<close>

text \<open>
  The development embeds \<^verbatim>\<open>src/main/upload-function.py\<close>: the request parser
  \<^verbatim>\<open>extrair_dados_requisicao\<close>, the extension check \<^verbatim>\<open>validar_extensao\<close>, the
  pipeline steps and the orchestrating \<^verbatim>\<open>lambda_handler\<close>.

  A Python \<^verbatim>\<open>str\<close> is a \<open>string\<close> whose characters are code points below 256;
  a \<^verbatim>\<open>bytes\<close> object is a list of 8-bit words. Exceptions are values: every function
  that can raise returns \<open>exc + 'a\<close>, with \<open>Inl\<close> the exception.
\<close>

subsection \<open>Strings\<close>

text \<open>
  \<^verbatim>\<open>str.lower()\<close> on code points below 256: the ASCII capitals and the Latin-1
  capitals (192 to 222, without the multiplication sign 215) move up by 32.
\<close>

definition lower_char :: "char \<Rightarrow> char" where
  "lower_char c =
     (let n = (of_char c :: nat)
      in if (65 \<le> n \<and> n \<le> 90) \<or> (192 \<le> n \<and> n \<le> 222 \<and> n \<noteq> 215)
         then char_of (n + 32) else c)"

definition lower :: "string \<Rightarrow> string" where
  "lower s = map lower_char s"

text \<open>\<^verbatim>\<open>s.split(sep)\<close> for a one-character separator: never empty, keeps empty pieces.\<close>

fun split_on :: "char \<Rightarrow> string \<Rightarrow> string list" where
  "split_on sep [] = [[]]"
| "split_on sep (c # cs) =
     (let r = split_on sep cs
      in if c = sep then [] # r else (c # hd r) # tl r)"

text \<open>\<^verbatim>\<open>s.rfind(c)\<close>: the index of the last occurrence of \<open>c\<close>, or \<open>-1\<close>.\<close>

fun rfind_from :: "char \<Rightarrow> string \<Rightarrow> nat \<Rightarrow> int \<Rightarrow> int" where
  "rfind_from c [] i found = found"
| "rfind_from c (x # xs) i found = rfind_from c xs (Suc i) (if x = c then int i else found)"

definition rfind :: "string \<Rightarrow> char \<Rightarrow> int" where
  "rfind s c = rfind_from c s 0 (- 1)"

subsection \<open>pathlib: the final component and its suffix\<close>

text \<open>
  \<^verbatim>\<open>Path(p)\<close> on a POSIX system splits \<open>p\<close> at \<^verbatim>\<open>/\<close> and drops the empty pieces and
  the pieces \<^verbatim>\<open>.\<close>; \<^verbatim>\<open>.name\<close> is the last remaining piece, or the empty string.
  \<^verbatim>\<open>.suffix\<close> (CPython 3.8 to 3.13) is
  \<^verbatim>\<open>i = name.rfind('.'); name[i:] if 0 < i < len(name) - 1 else ''\<close>.
\<close>

definition path_tail :: "string \<Rightarrow> string list" where
  "path_tail p = filter (\<lambda>x. x \<noteq> [] \<and> x \<noteq> ''.'') (split_on CHR ''/'' p)"

definition path_name :: "string \<Rightarrow> string" where
  "path_name p = (case path_tail p of [] \<Rightarrow> [] | t \<Rightarrow> last t)"

definition path_suffix :: "string \<Rightarrow> string" where
  "path_suffix p =
     (let name = path_name p; i = rfind name CHR ''.''
      in if 0 < i \<and> i < int (length name) - 1 then drop (nat i) name else [])"

subsection \<open>The extension check\<close>

text \<open>
  \<^verbatim>\<open>
  def validar_extensao(nome_arquivo):
      ext = Path(nome_arquivo).suffix.lower()
      return ext in {'.mp4', '.avi', '.mov', '.mkv', '.wmv', '.flv', '.webm'}
  \<close>
\<close>

definition extensoes :: "string list" where
  "extensoes = [''.mp4'', ''.avi'', ''.mov'', ''.mkv'', ''.wmv'', ''.flv'', ''.webm'']"

text \<open>The seven suffixes as the specification lists them, without the period.\<close>

definition nomes :: "string list" where
  "nomes = [''mp4'', ''avi'', ''mov'', ''mkv'', ''wmv'', ''flv'', ''webm'']"

definition validar_extensao :: "string \<Rightarrow> bool" where
  "validar_extensao nome_arquivo =
     (let ext = lower (path_suffix nome_arquivo) in ext \<in> set extensoes)"

subsection \<open>Exceptions\<close>

text \<open>
  The handlers of the source tell three classes of exception apart:
  \<^verbatim>\<open>except ValueError\<close> catches \<open>ValueErrorK\<close> (ValueError and its subclasses, among them
  binascii.Error and UnicodeDecodeError), \<^verbatim>\<open>except Exception\<close> catches that and
  \<open>ExceptionK\<close> (every other subclass of Exception), and nothing catches
  \<open>BaseExceptionK\<close> (KeyboardInterrupt, SystemExit). The string is \<^verbatim>\<open>str(e)\<close>.
\<close>

datatype exc_kind = ValueErrorK | ExceptionK | BaseExceptionK

datatype exc = Exc exc_kind string

fun kind :: "exc \<Rightarrow> exc_kind" where
  "kind (Exc k m) = k"

fun str_exc :: "exc \<Rightarrow> string" where
  "str_exc (Exc k m) = m"

definition is_ValueError :: "exc \<Rightarrow> bool" where
  "is_ValueError e = (kind e = ValueErrorK)"

definition is_Exception :: "exc \<Rightarrow> bool" where
  "is_Exception e = (kind e = ValueErrorK \<or> kind e = ExceptionK)"

subsection \<open>Decimal numerals\<close>

definition digit_char :: "nat \<Rightarrow> char" where
  "digit_char d = char_of (48 + d)"

function dec :: "nat \<Rightarrow> string" where
  "dec n = (if n < 10 then [digit_char n] else dec (n div 10) @ [digit_char (n mod 10)])"
  by pat_completeness auto
termination
  by (relation "measure id") auto

declare dec.simps [simp del]

subsection \<open>Decoded JSON values\<close>

text \<open>
  What \<^verbatim>\<open>json.loads\<close> returns: \<^verbatim>\<open>None\<close>, a bool, an int, a float (mantissa and
  binary exponent), a str, a list or a dict (its items in document order; a later
  duplicate key wins).
\<close>

datatype json =
    JNull
  | JBool bool
  | JInt int
  | JFloat int int
  | JStr string
  | JArr "json list"
  | JObj "(string \<times> json) list"

text \<open>Python's truth value, as \<^verbatim>\<open>if x\<close> and \<^verbatim>\<open>not x\<close> test it.\<close>

fun truthy :: "json \<Rightarrow> bool" where
  "truthy JNull = False"
| "truthy (JBool b) = b"
| "truthy (JInt i) = (i \<noteq> 0)"
| "truthy (JFloat m e) = (m \<noteq> 0)"
| "truthy (JStr s) = (s \<noteq> [])"
| "truthy (JArr xs) = (xs \<noteq> [])"
| "truthy (JObj kvs) = (kvs \<noteq> [])"

fun type_name :: "json \<Rightarrow> string" where
  "type_name JNull = ''NoneType''"
| "type_name (JBool b) = ''bool''"
| "type_name (JInt i) = ''int''"
| "type_name (JFloat m e) = ''float''"
| "type_name (JStr s) = ''str''"
| "type_name (JArr xs) = ''list''"
| "type_name (JObj kvs) = ''dict''"

text \<open>\<^verbatim>\<open>d.get(k)\<close> on a dict given by its items: \<^verbatim>\<open>None\<close> when the key is absent.\<close>

definition dict_get :: "(string \<times> 'v) list \<Rightarrow> string \<Rightarrow> 'v option" where
  "dict_get kvs k = map_of (rev kvs) k"

text \<open>
  \<^verbatim>\<open>body.get(k)\<close> on a decoded body: only a dict has the method; on every other
  value the attribute lookup raises AttributeError.
\<close>

definition body_get :: "json \<Rightarrow> string \<Rightarrow> exc + json" where
  "body_get body k =
     (case body of
        JObj kvs \<Rightarrow> Inr (case dict_get kvs k of None \<Rightarrow> JNull | Some v \<Rightarrow> v)
      | _ \<Rightarrow> Inl (Exc ExceptionK
                 ([CHR 0x27] @ type_name body @ [CHR 0x27] @ '' object has no attribute ''
                   @ [CHR 0x27] @ ''get'' @ [CHR 0x27])))"

subsection \<open>Base64\<close>

type_synonym byte = "8 word"

definition b64_alphabet :: string where
  "b64_alphabet = ''ABCDEFGHIJKLMNOPQRSTUVWXYZabcdefghijklmnopqrstuvwxyz0123456789+/''"

text \<open>
  The decoding table of binascii: the position of a character in the alphabet, nothing
  for every other character.
\<close>

definition table_a2b_base64 :: "char \<Rightarrow> byte option" where
  "table_a2b_base64 c = map_option of_nat (map_of (zip b64_alphabet [0 ..< 64]) c)"

text \<open>
  \<^verbatim>\<open>binascii.a2b_base64(data)\<close> in its default, non-strict mode (CPython 3.11 to 3.13),
  the loop over the input with its variables \<^verbatim>\<open>quad_pos\<close>, \<^verbatim>\<open>leftchar\<close>, \<^verbatim>\<open>pads\<close> and
  the output written so far. A pad that completes a quad ends the decoding
  (\<^verbatim>\<open>goto done\<close>); every other pad and every character outside the alphabet is skipped.
  binascii.Error is a subclass of ValueError.
\<close>

fun a2b_base64_loop :: "string \<Rightarrow> nat \<Rightarrow> byte \<Rightarrow> nat \<Rightarrow> byte list \<Rightarrow> exc + byte list" where
  "a2b_base64_loop [] quad_pos leftchar pads out =
     (if quad_pos \<noteq> 0 then
        (if quad_pos = 1 then
           Inl (Exc ValueErrorK
             (''Invalid base64-encoded string: number of data characters (''
               @ dec (length out div 3 * 4 + 1)
               @ '') cannot be 1 more than a multiple of 4''))
         else Inl (Exc ValueErrorK ''Incorrect padding''))
      else Inr out)"
| "a2b_base64_loop (c # cs) quad_pos leftchar pads out =
     (if c = CHR ''='' then
        (if quad_pos \<ge> 2 then
           (if quad_pos + (pads + 1) \<ge> 4 then Inr out
            else a2b_base64_loop cs quad_pos leftchar (pads + 1) out)
         else a2b_base64_loop cs quad_pos leftchar pads out)
      else
        (case table_a2b_base64 c of
           None \<Rightarrow> a2b_base64_loop cs quad_pos leftchar pads out
         | Some this_ch \<Rightarrow>
             (if quad_pos = 0 then a2b_base64_loop cs 1 this_ch 0 out
              else if quad_pos = 1 then
                a2b_base64_loop cs 2 (this_ch AND 0x0f) 0
                  (out @ [push_bit 2 leftchar OR drop_bit 4 this_ch])
              else if quad_pos = 2 then
                a2b_base64_loop cs 3 (this_ch AND 0x03) 0
                  (out @ [push_bit 4 leftchar OR drop_bit 2 this_ch])
              else
                a2b_base64_loop cs 0 0 0 (out @ [push_bit 6 leftchar OR this_ch]))))"

definition a2b_base64 :: "string \<Rightarrow> exc + byte list" where
  "a2b_base64 s = a2b_base64_loop s 0 0 0 []"

text \<open>
  \<^verbatim>\<open>base64.b64decode(s)\<close> on a str: the str is encoded as ASCII first (a ValueError
  when it has a character above 127), then handed to \<^verbatim>\<open>binascii.a2b_base64\<close>.
\<close>

definition b64decode :: "string \<Rightarrow> exc + byte list" where
  "b64decode s =
     (if list_ex (\<lambda>c. (of_char c :: nat) \<ge> 128) s
      then Inl (Exc ValueErrorK ''string argument should contain only ASCII characters'')
      else a2b_base64 s)"

text \<open>
  The standard base64 encoding (RFC 4648, with padding), which the claims about a valid
  payload refer to: three bytes give four characters of the alphabet; a last group of
  one or two bytes is filled with zero bits and padded with \<^verbatim>\<open>=\<close>.
\<close>

definition enc_char :: "byte \<Rightarrow> char" where
  "enc_char v = b64_alphabet ! unat v"

text \<open>The four 6-bit groups of the 24 bits of three bytes, first to last.\<close>

definition sextet0 :: "byte \<Rightarrow> byte" where
  "sextet0 a = drop_bit 2 a"

definition sextet1 :: "byte \<Rightarrow> byte \<Rightarrow> byte" where
  "sextet1 a b = push_bit 4 (a AND 3) OR drop_bit 4 b"

definition sextet2 :: "byte \<Rightarrow> byte \<Rightarrow> byte" where
  "sextet2 b c = push_bit 2 (b AND 15) OR drop_bit 6 c"

definition sextet3 :: "byte \<Rightarrow> byte" where
  "sextet3 c = c AND 63"

fun b64encode :: "byte list \<Rightarrow> string" where
  "b64encode [] = []"
| "b64encode [a] =
     [enc_char (sextet0 a), enc_char (sextet1 a 0), CHR ''='', CHR ''='']"
| "b64encode [a, b] =
     [enc_char (sextet0 a), enc_char (sextet1 a b), enc_char (sextet2 b 0), CHR ''='']"
| "b64encode (a # b # c # rest) =
     [enc_char (sextet0 a), enc_char (sextet1 a b), enc_char (sextet2 b c),
      enc_char (sextet3 c)] @ b64encode rest"

subsection \<open>The request and the library functions the parser calls\<close>

text \<open>
  The event of the invocation, as the parser reads it: \<^verbatim>\<open>event.get('headers')\<close>,
  \<^verbatim>\<open>event.get('body')\<close> and \<^verbatim>\<open>event.get('isBase64Encoded')\<close>.
\<close>

record event =
  headers :: "(string \<times> string) list option"
  body :: "string option"
  isBase64Encoded :: bool

text \<open>
  A part of a multipart message, as the loop of the parser reads it:
  \<^verbatim>\<open>part.get_param('name', header='content-disposition')\<close>, \<^verbatim>\<open>part.get_filename()\<close> and
  \<^verbatim>\<open>part.get_payload(decode=True)\<close> (\<^verbatim>\<open>None\<close> for a part that is itself multipart).
\<close>

record part =
  part_name :: "string option"
  part_filename :: "string option"
  part_payload :: "byte list option"

text \<open>
  The functions of the Python standard library that the source calls and that are not
  part of it are parameters of the model:
  \<^item> \<open>json_loads\<close>: \<^verbatim>\<open>json.loads\<close>, \<open>None\<close> when it raises;
  \<^item> \<open>parse_parts\<close>: the parts that \<^verbatim>\<open>BytesParser(policy=policy.default).parsebytes\<close>
    and \<^verbatim>\<open>iter_parts()\<close> give for a content type and a body, \<open>None\<close> when the parser raises;
  \<^item> \<open>utf8_decode\<close>: \<^verbatim>\<open>bytes.decode('utf-8')\<close>, \<open>Inl\<close> the message of the
    UnicodeDecodeError;
  \<^item> \<open>str_of\<close>: \<^verbatim>\<open>str(v)\<close> for a decoded JSON value that is not a str.
\<close>

record library =
  json_loads :: "string \<Rightarrow> json option"
  parse_parts :: "string \<Rightarrow> byte list \<Rightarrow> part list option"
  utf8_decode :: "byte list \<Rightarrow> string + string"
  str_of :: "json \<Rightarrow> string"

text \<open>\<^verbatim>\<open>str.encode('utf-8')\<close> on code points below 256: one byte below 128, two above.\<close>

definition utf8_encode :: "string \<Rightarrow> byte list" where
  "utf8_encode s =
     concat (map (\<lambda>c. let n = (of_char c :: nat)
                        in if n < 128 then [of_nat n]
                           else [of_nat (192 + n div 64), of_nat (128 + n mod 64)]) s)"

text \<open>What an f-string writes for a value: the str itself, \<^verbatim>\<open>str(v)\<close> otherwise.\<close>

definition format_value :: "library \<Rightarrow> json \<Rightarrow> string" where
  "format_value L v = (case v of JStr s \<Rightarrow> s | _ \<Rightarrow> str_of L v)"

subsection \<open>The request parser\<close>

text \<open>
  \<^verbatim>\<open>
  headers = {k.lower(): v for k, v in (event.get('headers') or {}).items()}
  content_type = headers.get('content-type')
  \<close>
\<close>

definition content_type_of :: "event \<Rightarrow> string option" where
  "content_type_of ev =
     (let hs = (case headers ev of None \<Rightarrow> [] | Some h \<Rightarrow> h);
          lowered = map (\<lambda>(k, v). (lower k, v)) hs
      in dict_get lowered ''content-type'')"

text \<open>\<^verbatim>\<open>content_type and 'multipart/form-data' in content_type\<close>\<close>

definition is_multipart :: "event \<Rightarrow> bool" where
  "is_multipart ev =
     (case content_type_of ev of
        None \<Rightarrow> False
      | Some ct \<Rightarrow> ct \<noteq> [] \<and> sublist ''multipart/form-data'' ct)"

text \<open>\<^verbatim>\<open>event.get('body') or d\<close>\<close>

definition body_or :: "event \<Rightarrow> string \<Rightarrow> string" where
  "body_or ev d = (case body ev of None \<Rightarrow> d | Some s \<Rightarrow> if s = [] then d else s)"

text \<open>
  The messages of the source, with their accented letters as code points
  (\<open>0xE1\<close> a acute, \<open>0xE2\<close> a circumflex, \<open>0xE3\<close> a tilde, \<open>0xED\<close> i acute,
  \<open>0xF3\<close> o acute). The listings below quote the source with the name of the message
  in place of the literal.
\<close>

definition msg_parse_multipart :: string where
  "msg_parse_multipart = ''Erro ao parsear multipart/form-data''"

definition msg_corpo_invalido :: string where
  "msg_corpo_invalido =
     ''Corpo inv'' @ [CHR 0xE1] @ ''lido: esperado JSON ou multipart/form-data''"

definition msg_base64_invalido :: string where
  "msg_base64_invalido = ''Arquivo base64 inv'' @ [CHR 0xE1] @ ''lido''"

definition msg_parametros_ausentes :: string where
  "msg_parametros_ausentes =
     ''Par'' @ [CHR 0xE2] @ ''metros ausentes: email, filename e arquivo s'' @ [CHR 0xE3]
       @ ''o obrigat'' @ [CHR 0xF3] @ ''rios''"

text \<open>
  The body of a multipart request and its parts: the body is base64-decoded when the
  event says so (outside the \<^verbatim>\<open>try\<close>, so a binascii.Error leaves the parser as it
  is), and any Exception of the message parser becomes a ValueError.
\<close>

definition multipart_parts :: "library \<Rightarrow> event \<Rightarrow> string \<Rightarrow> exc + part list" where
  "multipart_parts L ev content_type =
     (let raw_body = body_or ev []
      in case (if isBase64Encoded ev then b64decode raw_body else Inr (utf8_encode raw_body)) of
           Inl e \<Rightarrow> Inl e
         | Inr body_bytes \<Rightarrow>
             (case parse_parts L content_type body_bytes of
                None \<Rightarrow> Inl (Exc ValueErrorK msg_parse_multipart)
              | Some parts \<Rightarrow> Inr parts))"

text \<open>
  The loop over the parts, with the three variables it assigns:
  \<^verbatim>\<open>
  for part in msg.iter_parts():
      name = part.get_param('name', header='content-disposition')
      filename = part.get_filename()
      if filename:
          nome_arquivo = filename
          arquivo_bytes = part.get_payload(decode=True)
      elif name == 'email':
          email = part.get_payload(decode=True).decode('utf-8')
  \<close>
\<close>

type_synonym fields = "json \<times> json \<times> byte list option"

definition filename_truthy :: "part \<Rightarrow> bool" where
  "filename_truthy p = (case part_filename p of None \<Rightarrow> False | Some f \<Rightarrow> f \<noteq> [])"

definition decode_email :: "library \<Rightarrow> part \<Rightarrow> exc + string" where
  "decode_email L p =
     (case part_payload p of
        None \<Rightarrow>
          Inl (Exc ExceptionK
                ([CHR 0x27] @ ''NoneType'' @ [CHR 0x27] @ '' object has no attribute ''
                  @ [CHR 0x27] @ ''decode'' @ [CHR 0x27]))
      | Some bs \<Rightarrow>
          (case utf8_decode L bs of
             Inl m \<Rightarrow> Inl (Exc ValueErrorK m)
           | Inr s \<Rightarrow> Inr s))"

fun iter_parts :: "library \<Rightarrow> part list \<Rightarrow> fields \<Rightarrow> exc + fields" where
  "iter_parts L [] vars = Inr vars"
| "iter_parts L (p # ps) (email, nome_arquivo, arquivo_bytes) =
     (if filename_truthy p then
        iter_parts L ps (email, JStr (the (part_filename p)), part_payload p)
      else if part_name p = Some ''email'' then
        (case decode_email L p of
           Inl e \<Rightarrow> Inl e
         | Inr s \<Rightarrow> iter_parts L ps (JStr s, nome_arquivo, arquivo_bytes))
      else iter_parts L ps (email, nome_arquivo, arquivo_bytes))"

text \<open>
  The JSON branch:
  \<^verbatim>\<open>
  try:
      body = json.loads(event.get('body') or '{}')
  except Exception:
      raise ValueError(msg_corpo_invalido)
  email = body.get('email')
  nome_arquivo = body.get('filename')
  arquivo_b64 = body.get('arquivo')
  if arquivo_b64:
      try:
          arquivo_bytes = base64.b64decode(arquivo_b64)
      except Exception:
          raise ValueError(msg_base64_invalido)
  \<close>
  \<^verbatim>\<open>b64decode\<close> raises TypeError on a value that is neither a str nor bytes-like; the
  \<^verbatim>\<open>except\<close> turns that into the same ValueError.
\<close>

definition decode_arquivo :: "json \<Rightarrow> exc + byte list option" where
  "decode_arquivo arquivo_b64 =
     (if truthy arquivo_b64 then
        (case arquivo_b64 of
           JStr s \<Rightarrow>
             (case b64decode s of
                Inl e \<Rightarrow> Inl (Exc ValueErrorK msg_base64_invalido)
              | Inr bs \<Rightarrow> Inr (Some bs))
         | _ \<Rightarrow> Inl (Exc ValueErrorK msg_base64_invalido))
      else Inr None)"

definition json_fields :: "library \<Rightarrow> event \<Rightarrow> exc + fields" where
  "json_fields L ev =
     (case json_loads L (body_or ev ''{}'') of
        None \<Rightarrow> Inl (Exc ValueErrorK msg_corpo_invalido)
      | Some b \<Rightarrow>
          (case body_get b ''email'' of
             Inl e \<Rightarrow> Inl e
           | Inr email \<Rightarrow>
               (case body_get b ''filename'' of
                  Inl e \<Rightarrow> Inl e
                | Inr nome_arquivo \<Rightarrow>
                    (case body_get b ''arquivo'' of
                       Inl e \<Rightarrow> Inl e
                     | Inr arquivo_b64 \<Rightarrow>
                         (case decode_arquivo arquivo_b64 of
                            Inl e \<Rightarrow> Inl e
                          | Inr arquivo_bytes \<Rightarrow> Inr (email, nome_arquivo, arquivo_bytes))))))"

text \<open>
  The check that closes both branches:
  \<^verbatim>\<open>
  if not email or not nome_arquivo or not arquivo_bytes:
      raise ValueError(msg_parametros_ausentes)
  return email, nome_arquivo, arquivo_bytes
  \<close>
\<close>

definition bytes_truthy :: "byte list option \<Rightarrow> bool" where
  "bytes_truthy b = (case b of None \<Rightarrow> False | Some bs \<Rightarrow> bs \<noteq> [])"

definition check_fields :: "fields \<Rightarrow> exc + (json \<times> json \<times> byte list)" where
  "check_fields vars =
     (case vars of (email, nome_arquivo, arquivo_bytes) \<Rightarrow>
        if \<not> truthy email \<or> \<not> truthy nome_arquivo \<or> \<not> bytes_truthy arquivo_bytes
        then Inl (Exc ValueErrorK msg_parametros_ausentes)
        else Inr (email, nome_arquivo, the arquivo_bytes))"

definition extrair_dados_requisicao :: "library \<Rightarrow> event \<Rightarrow> exc + (json \<times> json \<times> byte list)" where
  "extrair_dados_requisicao L ev =
     (case (if is_multipart ev then
              (case multipart_parts L ev (the (content_type_of ev)) of
                 Inl e \<Rightarrow> Inl e
               | Inr parts \<Rightarrow> iter_parts L parts (JNull, JNull, None))
            else json_fields L ev) of
        Inl e \<Rightarrow> Inl e
      | Inr vars \<Rightarrow> check_fields vars)"

subsection \<open>Paths\<close>

text \<open>
  \<^verbatim>\<open>os.path.join(a, b)\<close> and \<^verbatim>\<open>os.path.basename(p)\<close> of posixpath:
  \<^verbatim>\<open>
  if b.startswith('/'): path = b
  elif not path or path.endswith('/'): path += b
  else: path += '/' + b

  i = p.rfind('/') + 1
  return p[i:]
  \<close>
\<close>

definition path_join :: "string \<Rightarrow> string \<Rightarrow> string" where
  "path_join a b =
     (if b \<noteq> [] \<and> hd b = CHR ''/'' then b
      else if a = [] \<or> last a = CHR ''/'' then a @ b
      else a @ ''/'' @ b)"

definition basename :: "string \<Rightarrow> string" where
  "basename p = drop (nat (rfind p CHR ''/'' + 1)) p"

subsection \<open>The world of one invocation\<close>

text \<open>
  The configuration read at load time and what the collaborators of the handler answer
  during the invocation: the clock, the scratch directory that \<^verbatim>\<open>tempfile.mkdtemp\<close>
  creates, the upload id, and for every call that can fail the exception it raises, if
  any. \<open>run_result\<close> is what \<^verbatim>\<open>subprocess.run\<close> does: it raises, or returns the exit
  code and the decoded diagnostic output of the decoder. \<open>glob_result\<close> is what
  \<^verbatim>\<open>glob.glob\<close> lists afterwards, in the order of the file system.
  \<open>mkdtemp_raises\<close> is the exception of \<^verbatim>\<open>tempfile.mkdtemp\<close>, if it raises, and
  \<open>resource_raises\<close> the one of \<^verbatim>\<open>boto3.resource('dynamodb')\<close> or of
  \<^verbatim>\<open>dynamodb.Table(TABLE_NAME)\<close>.
\<close>

record world =
  S3_BUCKET :: "string option"
  TABLE_NAME :: "string option"
  strftime_now :: string
  mkdtemp_raises :: "exc option"
  mkdtemp_dir :: string
  uuid4_hex :: string
  resource_raises :: "exc option"
  isoformat_now :: string
  put_item_raises :: "exc option"
  open_write_raises :: "exc option"
  which_ffmpeg :: bool
  executable_at :: "string \<Rightarrow> bool"
  makedirs_raises :: "exc option"
  run_result :: "exc + (int \<times> string)"
  glob_result :: "string list"
  zip_raises :: "exc option"
  upload_file_raises :: "exc option"
  update_item_raises :: "exc option"
  rmtree_raises :: "exc option"

text \<open>An item of the record store, with the attributes the source writes.\<close>

record item =
  idEmail :: json
  idUpload :: string
  status :: string
  created_at :: "string option"
  item_s3_key :: "string option"
  item_frame_count :: "nat option"

text \<open>What the handler does to the outside, in the order in which it does it.\<close>

datatype action =
    Mkdtemp string
  | PutItem string item
  | WriteFile string "byte list"
  | Makedirs string
  | Run "string list"
  | Glob string
  | WriteZip string "(string \<times> string) list"
  | UploadFile string string string
  | UpdateItem string "json \<times> string" string string nat
  | Rmtree string

text \<open>
  The state the handler acts on: the table of the record store, keyed by
  \<^verbatim>\<open>(idEmail, idUpload)\<close>, and the log of the actions so far. A write of the record store
  that raises leaves the table as it was.
\<close>

record state =
  table :: "json \<times> string \<Rightarrow> item option"
  log :: "action list"

definition emit :: "action \<Rightarrow> state \<Rightarrow> state" where
  "emit a \<sigma> = \<sigma>\<lparr>log := log \<sigma> @ [a]\<rparr>"

subsection \<open>The response\<close>

record body_dict =
  success :: bool
  message :: string
  record_id :: "string option"
  s3_key :: "string option"
  frame_count :: "nat option"
  images :: "string list option"

record response =
  statusCode :: nat
  response_headers :: "(string \<times> string) list"
  response_body :: body_dict

text \<open>
  \<^verbatim>\<open>
  def responder(status_code, body_dict):
      return {'statusCode': status_code,
              'headers': {'Content-Type': 'application/json'},
              'body': json.dumps(body_dict)}
  \<close>
  The body is kept as the dictionary that \<^verbatim>\<open>json.dumps\<close> serialises.
\<close>

definition responder :: "nat \<Rightarrow> body_dict \<Rightarrow> response" where
  "responder status_code d =
     \<lparr>statusCode = status_code,
      response_headers = [(''Content-Type'', ''application/json'')],
      response_body = d\<rparr>"

definition failure :: "string \<Rightarrow> body_dict" where
  "failure m =
     \<lparr>success = False, message = m, record_id = None, s3_key = None,
      frame_count = None, images = None\<rparr>"

definition msg_bucket :: string where
  "msg_bucket = ''Vari'' @ [CHR 0xE1] @ ''vel de ambiente BUCKET n'' @ [CHR 0xE3] @ ''o configurada''"

definition msg_table :: string where
  "msg_table = ''Vari'' @ [CHR 0xE1] @ ''vel de ambiente TABLE n'' @ [CHR 0xE3] @ ''o configurada''"

definition msg_formato :: string where
  "msg_formato = ''Formato n'' @ [CHR 0xE3] @ ''o suportado''"

definition msg_registro_inicial :: string where
  "msg_registro_inicial = ''Erro ao gravar registro inicial no banco: ''"

definition msg_nenhum_frame :: string where
  "msg_nenhum_frame = ''Nenhum frame extra'' @ [CHR 0xED] @ ''do do v'' @ [CHR 0xED] @ ''deo''"

definition msg_concluido :: "nat \<Rightarrow> string" where
  "msg_concluido n =
     ''Processamento conclu'' @ [CHR 0xED] @ ''do! '' @ dec n @ '' frames extra'' @ [CHR 0xED]
       @ ''dos.''"

definition msg_erro_interno :: string where
  "msg_erro_interno = ''Erro interno: ''"

subsection \<open>The steps of the pipeline\<close>

text \<open>
  \<^verbatim>\<open>
  def criar_registro_inicial(table, email, upload_id):
      table.put_item(Item={'idEmail': email, 'idUpload': upload_id,
                           'status': 'processando',
                           'created_at': datetime.now(timezone.utc).isoformat()})
  \<close>
\<close>

definition criar_registro_inicial :: "world \<Rightarrow> string \<Rightarrow> json \<Rightarrow> string \<Rightarrow> state \<Rightarrow> (exc + unit) \<times> state" where
  "criar_registro_inicial w tbl email upload_id \<sigma> =
     (let it = \<lparr>idEmail = email, idUpload = upload_id, status = ''processando'',
                created_at = Some (isoformat_now w), item_s3_key = None,
                item_frame_count = None\<rparr>;
          \<sigma>1 = emit (PutItem tbl it) \<sigma>
      in case put_item_raises w of
           Some e \<Rightarrow> (Inl e, \<sigma>1)
         | None \<Rightarrow> (Inr (), \<sigma>1\<lparr>table := (table \<sigma>1)((email, upload_id) \<mapsto> it)\<rparr>))"

text \<open>
  \<^verbatim>\<open>
  def salvar_video_local(tmp_dir, nome_arquivo, arquivo_bytes, timestamp):
      video_path = os.path.join(tmp_dir, f"{timestamp}_{nome_arquivo}")
      with open(video_path, 'wb') as f:
          f.write(arquivo_bytes)
      return video_path
  \<close>
\<close>

definition salvar_video_local :: "world \<Rightarrow> string \<Rightarrow> string \<Rightarrow> byte list \<Rightarrow> string \<Rightarrow> state \<Rightarrow> (exc + string) \<times> state" where
  "salvar_video_local w tmp_dir nome_arquivo arquivo_bytes timestamp \<sigma> =
     (let video_path = path_join tmp_dir (timestamp @ ''_'' @ nome_arquivo);
          \<sigma>1 = emit (WriteFile video_path arquivo_bytes) \<sigma>
      in case open_write_raises w of
           Some e \<Rightarrow> (Inl e, \<sigma>1)
         | None \<Rightarrow> (Inr video_path, \<sigma>1))"

text \<open>
  \<^verbatim>\<open>
  def obter_caminho_ffmpeg():
      if shutil.which('ffmpeg'):
          return 'ffmpeg'
      caminhos_possiveis = ['/opt/bin/ffmpeg', '/var/task/ffmpeg', './ffmpeg']
      for path in caminhos_possiveis:
          if os.path.exists(path) and os.access(path, os.X_OK):
              return path
      return 'ffmpeg'
  \<close>
\<close>

definition obter_caminho_ffmpeg :: "world \<Rightarrow> string" where
  "obter_caminho_ffmpeg w =
     (if which_ffmpeg w then ''ffmpeg''
      else (case List.find (executable_at w) [''/opt/bin/ffmpeg'', ''/var/task/ffmpeg'', ''./ffmpeg''] of
              Some path \<Rightarrow> path
            | None \<Rightarrow> ''ffmpeg''))"

text \<open>
  \<^verbatim>\<open>
  def extrair_frames(video_path, tmp_dir):
      frames_dir = os.path.join(tmp_dir, 'frames')
      os.makedirs(frames_dir, exist_ok=True)
      frame_pattern = os.path.join(frames_dir, 'frame_%04d.png')
      ffmpeg_cmd = obter_caminho_ffmpeg()
      cmd = [ffmpeg_cmd, '-i', video_path, '-vf', 'fps=1', '-y', frame_pattern]
      proc = subprocess.run(cmd, capture_output=True)
      if proc.returncode != 0:
          raise Exception(f"Erro no ffmpeg: {proc.stderr.decode(errors='ignore')}")
      return sorted(glob.glob(os.path.join(frames_dir, '*.png')))
  \<close>
  \<^verbatim>\<open>sorted\<close> on a list of str is the lexicographic order on the code points, which is
  the order of \<open>string\<close> here.
\<close>

definition extrair_frames :: "world \<Rightarrow> string \<Rightarrow> string \<Rightarrow> state \<Rightarrow> (exc + string list) \<times> state" where
  "extrair_frames w video_path tmp_dir \<sigma> =
     (let frames_dir = path_join tmp_dir ''frames'';
          \<sigma>1 = emit (Makedirs frames_dir) \<sigma>
      in case makedirs_raises w of
           Some e \<Rightarrow> (Inl e, \<sigma>1)
         | None \<Rightarrow>
             (let frame_pattern = path_join frames_dir ''frame_%04d.png'';
                  ffmpeg_cmd = obter_caminho_ffmpeg w;
                  cmd = [ffmpeg_cmd, ''-i'', video_path, ''-vf'', ''fps=1'', ''-y'', frame_pattern];
                  \<sigma>2 = emit (Run cmd) \<sigma>1
              in case run_result w of
                   Inl e \<Rightarrow> (Inl e, \<sigma>2)
                 | Inr (returncode, stderr) \<Rightarrow>
                     if returncode \<noteq> 0
                     then (Inl (Exc ExceptionK (''Erro no ffmpeg: '' @ stderr)), \<sigma>2)
                     else (Inr (sort (glob_result w)),
                           emit (Glob (path_join frames_dir ''*.png'')) \<sigma>2)))"

text \<open>
  \<^verbatim>\<open>
  def criar_arquivo_zip(frames, tmp_dir, timestamp):
      zip_nome = f'frames_{timestamp}.zip'
      zip_path = os.path.join(tmp_dir, zip_nome)
      with zipfile.ZipFile(zip_path, 'w', compression=zipfile.ZIP_DEFLATED) as zf:
          for fpath in frames:
              zf.write(fpath, arcname=os.path.basename(fpath))
      return zip_path, zip_nome
  \<close>
\<close>

definition criar_arquivo_zip :: "world \<Rightarrow> string list \<Rightarrow> string \<Rightarrow> string \<Rightarrow> state \<Rightarrow> (exc + string \<times> string) \<times> state" where
  "criar_arquivo_zip w frames tmp_dir timestamp \<sigma> =
     (let zip_nome = ''frames_'' @ timestamp @ ''.zip'';
          zip_path = path_join tmp_dir zip_nome;
          \<sigma>1 = emit (WriteZip zip_path (map (\<lambda>fpath. (fpath, basename fpath)) frames)) \<sigma>
      in case zip_raises w of
           Some e \<Rightarrow> (Inl e, \<sigma>1)
         | None \<Rightarrow> (Inr (zip_path, zip_nome), \<sigma>1))"

text \<open>
  \<^verbatim>\<open>
  def upload_para_s3(file_path, bucket, key):
      s3 = boto3.client('s3')
      s3.upload_file(file_path, bucket, key)
  \<close>
\<close>

definition upload_para_s3 :: "world \<Rightarrow> string \<Rightarrow> string \<Rightarrow> string \<Rightarrow> state \<Rightarrow> (exc + unit) \<times> state" where
  "upload_para_s3 w file_path bucket key \<sigma> =
     (let \<sigma>1 = emit (UploadFile file_path bucket key) \<sigma>
      in case upload_file_raises w of
           Some e \<Rightarrow> (Inl e, \<sigma>1)
         | None \<Rightarrow> (Inr (), \<sigma>1))"

text \<open>
  \<^verbatim>\<open>
  def atualizar_registro_concluido(table, email, upload_id, s3_key, frame_count):
      table.update_item(
          Key={'idEmail': email, 'idUpload': upload_id},
          UpdateExpression='SET s3_key = :k, #st = :s, frame_count = :fc',
          ExpressionAttributeNames={'#st': 'status'},
          ExpressionAttributeValues={':k': s3_key, ':s': 'Concluido', ':fc': frame_count})
  \<close>
  An update of a key that has no item creates the item with the key and the attributes
  that are set.
\<close>

definition atualizar_registro_concluido :: "world \<Rightarrow> string \<Rightarrow> json \<Rightarrow> string \<Rightarrow> string \<Rightarrow> nat \<Rightarrow> state \<Rightarrow> (exc + unit) \<times> state" where
  "atualizar_registro_concluido w tbl email upload_id key n \<sigma> =
     (let \<sigma>1 = emit (UpdateItem tbl (email, upload_id) key ''Concluido'' n) \<sigma>;
          old = (case table \<sigma>1 (email, upload_id) of
                   Some it \<Rightarrow> it
                 | None \<Rightarrow> \<lparr>idEmail = email, idUpload = upload_id, status = [],
                              created_at = None, item_s3_key = None,
                              item_frame_count = None\<rparr>);
          new = old\<lparr>item_s3_key := Some key, status := ''Concluido'', item_frame_count := Some n\<rparr>
      in case update_item_raises w of
           Some e \<Rightarrow> (Inl e, \<sigma>1)
         | None \<Rightarrow> (Inr (), \<sigma>1\<lparr>table := (table \<sigma>1)((email, upload_id) \<mapsto> new)\<rparr>))"

text \<open>
  \<^verbatim>\<open>
  def limpar_diretorio_temporario(tmp_dir):
      try:
          shutil.rmtree(tmp_dir)
      except Exception:
          pass
  \<close>
\<close>

definition limpar_diretorio_temporario :: "world \<Rightarrow> string \<Rightarrow> state \<Rightarrow> (exc + unit) \<times> state" where
  "limpar_diretorio_temporario w tmp_dir \<sigma> =
     (let \<sigma>1 = emit (Rmtree tmp_dir) \<sigma>
      in case rmtree_raises w of
           Some e \<Rightarrow> if is_Exception e then (Inr (), \<sigma>1) else (Inl e, \<sigma>1)
         | None \<Rightarrow> (Inr (), \<sigma>1))"

subsection \<open>The handler\<close>

text \<open>The truth value of a configuration variable: unset and empty are both false.\<close>

definition env_set :: "string option \<Rightarrow> bool" where
  "env_set v = (case v of None \<Rightarrow> False | Some s \<Rightarrow> s \<noteq> [])"

text \<open>
  The body of the second \<^verbatim>\<open>try\<close> of \<^verbatim>\<open>lambda_handler\<close> (lines 65 to 87):
  \<^verbatim>\<open>
  video_path = salvar_video_local(tmp_dir, nome_arquivo, arquivo_bytes, timestamp)
  frames = extrair_frames(video_path, tmp_dir)
  if not frames:
      return responder(500, {'success': False, 'message': msg_nenhum_frame})
  zip_path, zip_nome = criar_arquivo_zip(frames, tmp_dir, timestamp)
  s3_key = f'outputs/{zip_nome}'
  upload_para_s3(zip_path, S3_BUCKET, s3_key)
  atualizar_registro_concluido(table, email, upload_id, s3_key, len(frames))
  imagens = [os.path.basename(f) for f in frames]
  return responder(200, {'success': True, 'message': msg_concluido(len(frames)),
                         'record_id': record_id, 's3_key': s3_key,
                         'frame_count': len(frames), 'images': imagens})
  \<close>
\<close>

definition try_block ::
  "world \<Rightarrow> string \<Rightarrow> string \<Rightarrow> json \<Rightarrow> string \<Rightarrow> byte list \<Rightarrow> string \<Rightarrow> string \<Rightarrow> string \<Rightarrow> string
     \<Rightarrow> state \<Rightarrow> (exc + response) \<times> state" where
  "try_block w bucket tbl email nome_arquivo arquivo_bytes timestamp tmp_dir upload_id rec_id \<sigma> =
     (case salvar_video_local w tmp_dir nome_arquivo arquivo_bytes timestamp \<sigma> of
        (Inl e, \<sigma>1) \<Rightarrow> (Inl e, \<sigma>1)
      | (Inr video_path, \<sigma>1) \<Rightarrow>
          (case extrair_frames w video_path tmp_dir \<sigma>1 of
             (Inl e, \<sigma>2) \<Rightarrow> (Inl e, \<sigma>2)
           | (Inr frames, \<sigma>2) \<Rightarrow>
               if frames = [] then (Inr (responder 500 (failure msg_nenhum_frame)), \<sigma>2)
               else
                 (case criar_arquivo_zip w frames tmp_dir timestamp \<sigma>2 of
                    (Inl e, \<sigma>3) \<Rightarrow> (Inl e, \<sigma>3)
                  | (Inr (zip_path, zip_nome), \<sigma>3) \<Rightarrow>
                      (let key = ''outputs/'' @ zip_nome
                       in case upload_para_s3 w zip_path bucket key \<sigma>3 of
                            (Inl e, \<sigma>4) \<Rightarrow> (Inl e, \<sigma>4)
                          | (Inr u, \<sigma>4) \<Rightarrow>
                              (case atualizar_registro_concluido w tbl email upload_id key
                                      (length frames) \<sigma>4 of
                                 (Inl e, \<sigma>5) \<Rightarrow> (Inl e, \<sigma>5)
                               | (Inr u', \<sigma>5) \<Rightarrow>
                                   (let imagens = map basename frames
                                    in (Inr (responder 200
                                          \<lparr>success = True,
                                           message = msg_concluido (length frames),
                                           record_id = Some rec_id,
                                           s3_key = Some key,
                                           frame_count = Some (length frames),
                                           images = Some imagens\<rparr>), \<sigma>5)))))))"

text \<open>
  Lines 50 to 93, after the validation: the scratch directory and the identifiers, the
  first \<^verbatim>\<open>try\<close> around the initial write of the record store, and the second
  \<^verbatim>\<open>try\<close> with its \<^verbatim>\<open>except Exception\<close> and its \<^verbatim>\<open>finally\<close>.
  \<^verbatim>\<open>
  timestamp = time.strftime('%Y%m%d_%H%M%S')
  tmp_dir = tempfile.mkdtemp(prefix='proc_')
  upload_id = uuid4().hex
  record_id = f"{email}_{upload_id}"
  dynamodb = boto3.resource('dynamodb')
  table = dynamodb.Table(TABLE_NAME)
  try:
      criar_registro_inicial(table, email, upload_id)
  except Exception as e:
      logger.exception('Erro ao gravar DynamoDB inicial')
      return responder(500, {'success': False, 'message': msg_registro_inicial + str(e)})
  try:
      ...
  except Exception as e:
      logger.exception('Erro no processamento')
      return responder(500, {'success': False, 'message': 'Erro interno: ' + str(e)})
  finally:
      limpar_diretorio_temporario(tmp_dir)
  \<close>
  The calls of lines 50 to 56 stand outside every \<^verbatim>\<open>try\<close>: an exception of
  \<^verbatim>\<open>tempfile.mkdtemp\<close>, of \<^verbatim>\<open>boto3.resource\<close> or of \<^verbatim>\<open>dynamodb.Table\<close> leaves the
  handler as it is, the last two after the scratch directory has been created
  (\<^verbatim>\<open>time.strftime\<close> and \<^verbatim>\<open>uuid4().hex\<close> only format a value). The creation of the
  directory is logged when it has succeeded. An exception that \<^verbatim>\<open>finally\<close> lets
  through replaces the response.
\<close>

definition processar ::
  "library \<Rightarrow> world \<Rightarrow> json \<Rightarrow> string \<Rightarrow> byte list \<Rightarrow> state \<Rightarrow> (exc + response) \<times> state" where
  "processar L w email nome_arquivo arquivo_bytes \<sigma> =
     (let timestamp = strftime_now w
      in case mkdtemp_raises w of
           Some e \<Rightarrow> (Inl e, \<sigma>)
         | None \<Rightarrow>
             (let tmp_dir = mkdtemp_dir w;
                  \<sigma>0 = emit (Mkdtemp tmp_dir) \<sigma>;
                  upload_id = uuid4_hex w;
                  rec_id = format_value L email @ ''_'' @ upload_id;
                  bucket = the (S3_BUCKET w);
                  tbl = the (TABLE_NAME w)
              in case resource_raises w of
                   Some e \<Rightarrow> (Inl e, \<sigma>0)
                 | None \<Rightarrow>
                     (case criar_registro_inicial w tbl email upload_id \<sigma>0 of
                        (Inl e, \<sigma>1) \<Rightarrow>
                          if is_Exception e
                          then (Inr (responder 500
                                      (failure (msg_registro_inicial @ str_exc e))), \<sigma>1)
                          else (Inl e, \<sigma>1)
                      | (Inr u, \<sigma>1) \<Rightarrow>
                          (case try_block w bucket tbl email nome_arquivo arquivo_bytes
                                  timestamp tmp_dir upload_id rec_id \<sigma>1 of
                             (r, \<sigma>2) \<Rightarrow>
                               (let r' = (case r of
                                            Inl e \<Rightarrow>
                                              if is_Exception e
                                              then Inr (responder 500
                                                     (failure (msg_erro_interno @ str_exc e)))
                                              else Inl e
                                          | Inr resp \<Rightarrow> Inr resp)
                                in case limpar_diretorio_temporario w tmp_dir \<sigma>2 of
                                     (Inl e, \<sigma>3) \<Rightarrow> (Inl e, \<sigma>3)
                                   | (Inr u', \<sigma>3) \<Rightarrow> (r', \<sigma>3))))))"

text \<open>
  \<^verbatim>\<open>
  def lambda_handler(event, context):
      if not S3_BUCKET:
          return responder(500, {'success': False, 'message': msg_bucket})
      if not TABLE_NAME:
          return responder(500, {'success': False, 'message': msg_table})
      try:
          email, nome_arquivo, arquivo_bytes = extrair_dados_requisicao(event)
      except ValueError as e:
          return responder(400, {'success': False, 'message': str(e)})
      if not validar_extensao(nome_arquivo):
          return responder(400, {'success': False, 'message': msg_formato})
      ...
  \<close>
  \<^verbatim>\<open>Path(nome_arquivo)\<close> raises TypeError on a value that is not a str (the text is the
  one of CPython up to 3.11); nothing catches it.
\<close>

definition path_type_error :: "json \<Rightarrow> exc" where
  "path_type_error v =
     Exc ExceptionK (''expected str, bytes or os.PathLike object, not '' @ type_name v)"

definition lambda_handler ::
  "library \<Rightarrow> world \<Rightarrow> event \<Rightarrow> state \<Rightarrow> (exc + response) \<times> state" where
  "lambda_handler L w ev \<sigma> =
     (if \<not> env_set (S3_BUCKET w) then (Inr (responder 500 (failure msg_bucket)), \<sigma>)
      else if \<not> env_set (TABLE_NAME w) then (Inr (responder 500 (failure msg_table)), \<sigma>)
      else
        (case extrair_dados_requisicao L ev of
           Inl e \<Rightarrow>
             if is_ValueError e then (Inr (responder 400 (failure (str_exc e))), \<sigma>)
             else (Inl e, \<sigma>)
         | Inr (email, nome, arquivo_bytes) \<Rightarrow>
             (case nome of
                JStr nome_arquivo \<Rightarrow>
                  if \<not> validar_extensao nome_arquivo
                  then (Inr (responder 400 (failure msg_formato)), \<sigma>)
                  else processar L w email nome_arquivo arquivo_bytes \<sigma>
              | _ \<Rightarrow> (Inl (path_type_error nome), \<sigma>))))"

subsection \<open>The names of the frames\<close>

text \<open>
  The decoder writes its \<open>n\<close>-th frame, counted from 1, to the pattern
  \<^verbatim>\<open>frame_%04d.png\<close> of \<^verbatim>\<open>extrair_frames\<close>: the decimal numeral of \<open>n\<close>, filled with
  zeros on the left to four digits, and longer when \<open>n\<close> has more.
\<close>

definition frame_name :: "nat \<Rightarrow> string" where
  "frame_name n =
     ''frame_'' @ replicate (4 - length (dec n)) CHR ''0'' @ dec n @ ''.png''"

definition frame_path :: "string \<Rightarrow> nat \<Rightarrow> string" where
  "frame_path tmp_dir n = path_join (path_join tmp_dir ''frames'') (frame_name n)"

text \<open>What \<^verbatim>\<open>os.path.join\<close> puts in front of the name of a frame.\<close>

definition frames_prefix :: "string \<Rightarrow> string" where
  "frames_prefix d =
     (let a = path_join d ''frames'' in if a = [] \<or> last a = CHR ''/'' then a else a @ ''/'')"

subsection \<open>Notions of the specification\<close>

text \<open>
  A str is a valid base64 encoding when it is the standard encoding of some bytes, that
  is, of the bytes it decodes to.
\<close>

definition valid_base64 :: "string \<Rightarrow> bool" where
  "valid_base64 s = (case b64decode s of Inl e \<Rightarrow> False | Inr bs \<Rightarrow> b64encode bs = s)"

text \<open>
  When the decoder of the source rejects a str, in words that do not follow its loop.
  Of the characters of the str only those of the alphabet (the data characters) and
  \<^verbatim>\<open>=\<close> count. A padding completes a group when a \<^verbatim>\<open>=\<close> stands after a number of data
  characters that is 3 modulo 4, or \<^verbatim>\<open>==\<close> after a number that is 2 modulo 4
  (\<open>q\<close> counts data characters read before). The decoder rejects a str with a
  character above 127, and a str in which no padding completes a group and the number
  of data characters is not a multiple of 4.
\<close>

definition is_data :: "char \<Rightarrow> bool" where
  "is_data c = (c \<in> set b64_alphabet)"

definition data_count :: "string \<Rightarrow> nat" where
  "data_count s = length (filter is_data s)"

definition significant :: "string \<Rightarrow> string" where
  "significant s = filter (\<lambda>c. c = CHR ''='' \<or> is_data c) s"

definition padding_completes :: "nat \<Rightarrow> string \<Rightarrow> bool" where
  "padding_completes q t =
     list_ex (\<lambda>u. ((q + data_count u) mod 4 = 3 \<and> prefix (u @ ''='') t)
                  \<or> ((q + data_count u) mod 4 = 2 \<and> prefix (u @ ''=='') t))
       (prefixes t)"

definition decoder_rejects :: "string \<Rightarrow> bool" where
  "decoder_rejects s =
     (list_ex (\<lambda>c. (of_char c :: nat) \<ge> 128) s
      \<or> (\<not> padding_completes 0 (significant s) \<and> data_count s mod 4 \<noteq> 0))"

text \<open>The writes to the record store among the actions of a log.\<close>

fun is_store_write :: "action \<Rightarrow> bool" where
  "is_store_write (PutItem tbl it) = True"
| "is_store_write (UpdateItem tbl k key st n) = True"
| "is_store_write a = False"

definition store_writes :: "action list \<Rightarrow> action list" where
  "store_writes as = filter is_store_write as"

text \<open>
  The item that \<^verbatim>\<open>criar_registro_inicial\<close> writes, and the item after the update of
  \<^verbatim>\<open>atualizar_registro_concluido\<close>.
\<close>

definition registro_inicial :: "world \<Rightarrow> json \<Rightarrow> item" where
  "registro_inicial w email =
     \<lparr>idEmail = email, idUpload = uuid4_hex w, status = ''processando'',
      created_at = Some (isoformat_now w), item_s3_key = None, item_frame_count = None\<rparr>"


text \<open>
  The decoder ran and exited with code 0; the steps of the second \<^verbatim>\<open>try\<close> up to and
  including the upload of the archive succeeded; the scratch directory and the table
  object were made (lines 50 to 56); that, the initial write and those steps
  succeeded; the whole pipeline succeeded; the cleanup raises nothing that its
  \<^verbatim>\<open>except Exception\<close> lets through.
\<close>

definition decoder_ok :: "world \<Rightarrow> bool" where
  "decoder_ok w =
     (makedirs_raises w = None \<and>
      (case run_result w of Inl e \<Rightarrow> False | Inr (returncode, stderr) \<Rightarrow> returncode = 0))"

definition steps_ok :: "world \<Rightarrow> bool" where
  "steps_ok w =
     (open_write_raises w = None \<and> decoder_ok w \<and> glob_result w \<noteq> [] \<and>
      zip_raises w = None \<and> upload_file_raises w = None)"

definition setup_ok :: "world \<Rightarrow> bool" where
  "setup_ok w = (mkdtemp_raises w = None \<and> resource_raises w = None)"




definition is_200 :: "exc + response \<Rightarrow> bool" where
  "is_200 r = (case r of Inl e \<Rightarrow> False | Inr resp \<Rightarrow> statusCode resp = 200)"

subsection \<open>Sample inputs\<close>

text \<open>
  A library that answers as the Python functions do on the inputs of the examples
  below: some JSON texts, two multipart bodies with the same two parts in either
  order, and ASCII payloads.
\<close>

definition crlf :: string where
  "crlf = [CHR 0x0D, CHR 0x0A]"

definition json_text_ok :: string where
  \<open>json_text_ok = ''{"email": "ana@fiap.br", "filename": "aula.mp4", "arquivo": "QUJD"}''\<close>

definition json_text_lenient :: string where
  \<open>json_text_lenient = ''{"email": "ana@fiap.br", "filename": "aula.mp4", "arquivo": "QUJD!"}''\<close>

definition json_text_bad_padding :: string where
  \<open>json_text_bad_padding = ''{"email": "ana@fiap.br", "filename": "aula.mp4", "arquivo": "QUJDR"}''\<close>

definition json_text_number :: string where
  \<open>json_text_number = ''{"email": "ana@fiap.br", "filename": "aula.mp4", "arquivo": 123}''\<close>

definition json_object :: "string \<Rightarrow> json" where
  "json_object arquivo =
     JObj [(''email'', JStr ''ana@fiap.br''), (''filename'', JStr ''aula.mp4''),
           (''arquivo'', JStr arquivo)]"

definition part_email_text :: string where
  \<open>part_email_text =
     ''--b'' @ crlf @ ''Content-Disposition: form-data; name="email"'' @ crlf @ crlf
       @ ''ana@fiap.br'' @ crlf\<close>

definition part_file_text :: string where
  \<open>part_file_text =
     ''--b'' @ crlf @ ''Content-Disposition: form-data; name="file"; filename="aula.mp4"''
       @ crlf @ crlf @ ''ABC'' @ crlf\<close>

definition multipart_email_first :: string where
  "multipart_email_first = part_email_text @ part_file_text @ ''--b--'' @ crlf"

definition multipart_file_first :: string where
  "multipart_file_first = part_file_text @ part_email_text @ ''--b--'' @ crlf"

definition sample_email_part :: part where
  "sample_email_part =
     \<lparr>part_name = Some ''email'', part_filename = None,
      part_payload = Some (utf8_encode ''ana@fiap.br'')\<rparr>"

definition sample_file_part :: part where
  "sample_file_part =
     \<lparr>part_name = Some ''file'', part_filename = Some ''aula.mp4'',
      part_payload = Some [65, 66, 67]\<rparr>"

definition sample_library :: library where
  "sample_library =
     \<lparr>json_loads = map_of
        [(''[]'', JArr []), (''{}'', JObj []),
         (json_text_ok, json_object ''QUJD''),
         (json_text_lenient, json_object ''QUJD!''),
         (json_text_bad_padding, json_object ''QUJDR''),
         (json_text_number,
          JObj [(''email'', JStr ''ana@fiap.br''), (''filename'', JStr ''aula.mp4''),
                (''arquivo'', JInt 123)])],
      parse_parts = (\<lambda>content_type body_bytes.
         if body_bytes = utf8_encode multipart_email_first
         then Some [sample_email_part, sample_file_part]
         else if body_bytes = utf8_encode multipart_file_first
         then Some [sample_file_part, sample_email_part]
         else Some []),
      utf8_decode = (\<lambda>bs.
         if list_all (\<lambda>b. unat b < 128) bs then Inr (map (\<lambda>b. char_of (unat b)) bs)
         else Inl ''invalid start byte''),
      str_of = (\<lambda>v. type_name v)\<rparr>"

definition json_event :: "string \<Rightarrow> event" where
  "json_event text =
     \<lparr>headers = Some [(''Content-Type'', ''application/json'')], body = Some text,
      isBase64Encoded = False\<rparr>"

definition multipart_event :: "string \<Rightarrow> event" where
  "multipart_event text =
     \<lparr>headers = Some [(''Content-Type'', ''multipart/form-data; boundary=b'')],
      body = Some text, isBase64Encoded = False\<rparr>"

text \<open>
  A world in which every step succeeds and the decoder has written the frames 1 to
  \<open>k\<close>, listed from the last to the first.
\<close>

definition sample_world :: "nat \<Rightarrow> world" where
  "sample_world k =
     \<lparr>S3_BUCKET = Some ''videos'', TABLE_NAME = Some ''uploads'',
      strftime_now = ''20240131_120000'', mkdtemp_raises = None,
      mkdtemp_dir = ''/tmp/proc_x1'', uuid4_hex = ''0f8e'', resource_raises = None,
      isoformat_now = ''2024-01-31T12:00:00+00:00'',
      put_item_raises = None, open_write_raises = None, which_ffmpeg = True,
      executable_at = (\<lambda>path. False), makedirs_raises = None,
      run_result = Inr (0, []),
      glob_result = rev (map (frame_path ''/tmp/proc_x1'') [1 ..< Suc k]),
      zip_raises = None, upload_file_raises = None, update_item_raises = None,
      rmtree_raises = None\<rparr>"

definition empty_state :: state where
  "empty_state = \<lparr>table = Map.empty, log = []\<rparr>"

section \<open>Properties\<close>

subsection \<open>The suffix of a file name\<close>

lemma rfind_from_absent: "c \<notin> set xs \<Longrightarrow> rfind_from c xs i found = found"
  by (induction xs arbitrary: i found) auto

lemma rfind_from_last:
  "c \<notin> set post \<Longrightarrow> rfind_from c (pre @ c # post) i found = int (i + length pre)"
  by (induction pre arbitrary: i found) (auto simp: rfind_from_absent)

lemma rfind_absent: "c \<notin> set s \<Longrightarrow> rfind s c = - 1"
  by (simp add: rfind_def rfind_from_absent)

lemma rfind_last: "c \<notin> set post \<Longrightarrow> rfind (pre @ c # post) c = int (length pre)"
  by (simp add: rfind_def rfind_from_last)

lemma of_char_lower_char:
  "(of_char (lower_char c) :: nat) =
     (let n = of_char c
      in if (65 \<le> n \<and> n \<le> 90) \<or> (192 \<le> n \<and> n \<le> 222 \<and> n \<noteq> 215) then n + 32 else n)"
  by (auto simp: lower_char_def Let_def)

lemma lower_char_dot: "lower_char c = CHR ''.'' \<longleftrightarrow> c = CHR ''.''"
proof -
  have "lower_char c = CHR ''.'' \<longleftrightarrow> (of_char (lower_char c) :: nat) = of_char CHR ''.''"
    by (simp only: of_char_eq_iff)
  also have "\<dots> \<longleftrightarrow> (of_char c :: nat) = of_char CHR ''.''"
    unfolding of_char_lower_char by (auto simp: Let_def)
  also have "\<dots> \<longleftrightarrow> c = CHR ''.''"
    by (simp only: of_char_eq_iff)
  finally show ?thesis .
qed

lemma dot_notin_lower: "CHR ''.'' \<notin> set (lower s) \<longleftrightarrow> CHR ''.'' \<notin> set s"
proof -
  have "CHR ''.'' \<in> lower_char ` set s \<longleftrightarrow> CHR ''.'' \<in> set s"
  proof
    assume "CHR ''.'' \<in> lower_char ` set s"
    then obtain x where "x \<in> set s" "lower_char x = CHR ''.''" by auto
    then show "CHR ''.'' \<in> set s" by (simp add: lower_char_dot)
  next
    assume "CHR ''.'' \<in> set s"
    moreover have "lower_char CHR ''.'' = CHR ''.''" by (simp add: lower_char_dot)
    ultimately show "CHR ''.'' \<in> lower_char ` set s" by force
  qed
  then show ?thesis by (simp add: lower_def)
qed

lemma path_suffix_split:
  assumes "path_name p = stem @ CHR ''.'' # ext" "CHR ''.'' \<notin> set ext"
  shows "path_suffix p = (if stem \<noteq> [] \<and> ext \<noteq> [] then CHR ''.'' # ext else [])"
  using assms by (auto simp: path_suffix_def Let_def rfind_last)

lemma path_suffix_nodot:
  assumes "CHR ''.'' \<notin> set (path_name p)"
  shows "path_suffix p = []"
  using assms by (simp add: path_suffix_def Let_def rfind_absent)

lemma path_suffix_cases:
  "path_suffix p = [] \<or>
   (\<exists>stem ext. path_name p = stem @ CHR ''.'' # ext \<and> stem \<noteq> [] \<and> ext \<noteq> [] \<and>
      CHR ''.'' \<notin> set ext \<and> path_suffix p = CHR ''.'' # ext)"
proof (cases "CHR ''.'' \<in> set (path_name p)")
  case False
  then show ?thesis by (simp add: path_suffix_nodot)
next
  case True
  then obtain stem ext where d: "path_name p = stem @ CHR ''.'' # ext" "CHR ''.'' \<notin> set ext"
    using split_list_last by fastforce
  show ?thesis using path_suffix_split [OF d] d by auto
qed

lemma extensoes_dot: "(CHR ''.'' # e) \<in> set extensoes \<longleftrightarrow> e \<in> set nomes"
  by (auto simp: extensoes_def nomes_def)

lemma extensoes_shape: "s \<in> set extensoes \<Longrightarrow> \<exists>e. s = CHR ''.'' # e \<and> e \<noteq> []"
  by (auto simp: extensoes_def)

lemma nomes_nodot: "e \<in> set nomes \<Longrightarrow> CHR ''.'' \<notin> set e \<and> e \<noteq> []"
  by (auto simp: nomes_def)

text \<open>
  Claim C3. The extension check accepts a file name exactly when its suffix, put in
  lower case, is one of mp4, avi, mov, mkv, wmv, flv, webm. The suffix is the one of
  pathlib: what follows the last period of the final path component, when that period
  is not the first character of the component. A name with another suffix, or with no
  suffix (no period, a leading period only, or a trailing period), is rejected.
\<close>

theorem validar_extensao_iff:
  "validar_extensao f \<longleftrightarrow>
     (\<exists>stem ext. path_name f = stem @ CHR ''.'' # ext \<and> stem \<noteq> [] \<and> lower ext \<in> set nomes)"
proof
  assume v: "validar_extensao f"
  then have m: "lower (path_suffix f) \<in> set extensoes"
    by (simp add: validar_extensao_def)
  then have "path_suffix f \<noteq> []"
    by (auto simp: lower_def dest: extensoes_shape)
  with path_suffix_cases [of f] obtain stem ext where
    d: "path_name f = stem @ CHR ''.'' # ext" "stem \<noteq> []" "path_suffix f = CHR ''.'' # ext"
    by auto
  have "lower (path_suffix f) = CHR ''.'' # lower ext"
    using d(3) lower_char_dot [of "CHR ''.''"] by (simp add: lower_def)
  with m have "lower ext \<in> set nomes" by (simp add: extensoes_dot)
  with d show "\<exists>stem ext. path_name f = stem @ CHR ''.'' # ext \<and> stem \<noteq> [] \<and> lower ext \<in> set nomes"
    by blast
next
  assume "\<exists>stem ext. path_name f = stem @ CHR ''.'' # ext \<and> stem \<noteq> [] \<and> lower ext \<in> set nomes"
  then obtain stem ext where
    d: "path_name f = stem @ CHR ''.'' # ext" "stem \<noteq> []" "lower ext \<in> set nomes"
    by blast
  from nomes_nodot [OF d(3)] have nd: "CHR ''.'' \<notin> set ext" "ext \<noteq> []"
    using dot_notin_lower [of ext] by (auto simp: lower_def)
  have "path_suffix f = CHR ''.'' # ext"
    using path_suffix_split [OF d(1) nd(1)] d(2) nd(2) by simp
  then have "lower (path_suffix f) = CHR ''.'' # lower ext"
    using lower_char_dot [of "CHR ''.''"] by (simp add: lower_def)
  then show "validar_extensao f"
    using d(3) by (simp add: validar_extensao_def extensoes_dot)
qed

theorem validar_extensao_iff_witness:
  "validar_extensao ''Clip.final.MoV'' \<and> \<not> validar_extensao ''.mp4''"
proof
  have "\<exists>stem ext. path_name ''Clip.final.MoV'' = stem @ CHR ''.'' # ext \<and> stem \<noteq> []
          \<and> lower ext \<in> set nomes"
    by (rule exI [of _ "''Clip.final''"], rule exI [of _ "''MoV''"]) code_simp
  then show "validar_extensao ''Clip.final.MoV''"
    using validar_extensao_iff [of "''Clip.final.MoV''"] by simp
next
  have "path_name ''.mp4'' = ''.mp4''" by code_simp
  then have "\<not> (\<exists>stem ext. path_name ''.mp4'' = stem @ CHR ''.'' # ext \<and> stem \<noteq> []
          \<and> lower ext \<in> set nomes)"
    by (auto simp: append_eq_Cons_conv nomes_def lower_def)
  then show "\<not> validar_extensao ''.mp4''"
    using validar_extensao_iff [of "''.mp4''"] by simp
qed

subsection \<open>Base64: decoding an encoding\<close>


lemma mask_3: "(3 :: byte) = mask 2" by (simp add: mask_eq_exp_minus_1)
lemma mask_15: "(15 :: byte) = mask 4" by (simp add: mask_eq_exp_minus_1)
lemma mask_63: "(63 :: byte) = mask 6" by (simp add: mask_eq_exp_minus_1)

lemma bit_index_2: "\<not> n < 2 \<Longrightarrow> Suc (Suc (n - 2)) = n" by simp
lemma bit_index_4: "\<not> n < 4 \<Longrightarrow> 4 + (n - 4) = (n::nat)" by simp
lemma bit_index_6: "\<not> n < 6 \<Longrightarrow> 6 + (n - 6) = (n::nat)" by simp

lemmas sextet_defs = sextet0_def sextet1_def sextet2_def sextet3_def

lemma decode_byte0: "push_bit 2 (sextet0 a) OR drop_bit 4 (sextet1 a b) = a"
  unfolding sextet_defs mask_3
  apply (rule bit_word_eqI)
  subgoal for n
    apply (cases "n < 2")
    apply (auto simp: bit_simps bit_index_2)
    done
  done

lemma decode_byte1: "push_bit 4 (sextet1 a b AND 0x0f) OR drop_bit 2 (sextet2 b c) = b"
  unfolding sextet_defs mask_3 mask_15
  apply (rule bit_word_eqI)
  subgoal for n
    apply (cases "n < 4")
    apply (auto simp: bit_simps bit_index_4)
    done
  done

lemma decode_byte2: "push_bit 6 (sextet2 b c AND 0x03) OR sextet3 c = c"
  unfolding sextet_defs mask_3 mask_15 mask_63
  apply (rule bit_word_eqI)
  subgoal for n
    apply (cases "n < 6")
    apply (auto simp: bit_simps bit_index_6)
    done
  done

lemma masked_below_64: "(v :: byte) AND 63 = v \<Longrightarrow> unat v < 64"
proof -
  assume a: "v AND 63 = v"
  have "unat (v AND 63) \<le> unat (63 :: byte)"
    by (rule word_and_le1 [THEN word_le_nat_alt [THEN iffD1]])
  then show ?thesis using a by simp
qed

lemma sextet0_bound: "unat (sextet0 a) < 64"
  apply (rule masked_below_64) unfolding mask_63 sextet_defs
  apply (rule bit_word_eqI)
  apply (auto simp: bit_simps dest: bit_imp_le_length)
  done

lemma sextet1_bound: "unat (sextet1 a b) < 64"
  apply (rule masked_below_64) unfolding mask_63 mask_3 sextet_defs
  apply (rule bit_word_eqI)
  apply (auto simp: bit_simps dest: bit_imp_le_length)
  done

lemma sextet2_bound: "unat (sextet2 b c) < 64"
  apply (rule masked_below_64) unfolding mask_63 mask_15 sextet_defs
  apply (rule bit_word_eqI)
  apply (auto simp: bit_simps dest: bit_imp_le_length)
  done

lemma sextet3_bound: "unat (sextet3 c) < 64"
  apply (rule masked_below_64) unfolding sextet_defs
  apply simp
  done

lemma alphabet_length: "length b64_alphabet = 64" by (simp add: b64_alphabet_def)
lemma alphabet_distinct: "distinct b64_alphabet" by (simp add: b64_alphabet_def)
lemma alphabet_nopad: "CHR ''='' \<notin> set b64_alphabet" by (simp add: b64_alphabet_def)
lemma alphabet_ascii: "\<forall>c \<in> set b64_alphabet. (of_char c :: nat) < 128" by (simp add: b64_alphabet_def)

lemma enc_in_alphabet: "unat v < 64 \<Longrightarrow> enc_char v \<in> set b64_alphabet"
  by (simp add: enc_char_def alphabet_length)

lemma table_enc: "unat v < 64 \<Longrightarrow> table_a2b_base64 (enc_char v) = Some v"
  using map_of_zip_nth [of b64_alphabet "[0..<64]" "unat v"]
  by (simp add: table_a2b_base64_def enc_char_def alphabet_length alphabet_distinct)

lemma enc_nopad: "unat v < 64 \<Longrightarrow> enc_char v \<noteq> CHR ''=''"
  using alphabet_nopad enc_in_alphabet [of v] by auto

lemmas sextet_bounds = sextet0_bound sextet1_bound sextet2_bound sextet3_bound 

lemma decode_byte1_normal: "push_bit 4 (sextet1 a b) AND 240 OR drop_bit 2 (sextet2 b c) = b"
  using decode_byte1 [of a b c] by simp

lemma decode_byte2_normal: "push_bit 6 (sextet2 b c) AND 192 OR sextet3 c = c"
  using decode_byte2 [of b c] by simp

lemma loop_encode:
  "a2b_base64_loop (b64encode bs) 0 l p out = Inr (out @ bs)"
proof (induction bs arbitrary: l p out rule: b64encode.induct)
  case 1
  then show ?case by simp
next
  case (2 a)
  show ?case
    using decode_byte0 [of a 0] by (simp add: table_enc enc_nopad sextet_bounds)
next
  case (3 a b)
  show ?case by (simp add: table_enc enc_nopad sextet_bounds decode_byte0 decode_byte1_normal)
next
  case (4 a b c rest)
  show ?case by (simp add: table_enc enc_nopad sextet_bounds decode_byte0 decode_byte1_normal decode_byte2_normal 4)
qed

lemma encode_ascii: "c \<in> set (b64encode bs) \<Longrightarrow> (of_char c :: nat) < 128"
proof (induction bs rule: b64encode.induct)
  case 1
  then show ?case by simp
next
  case (2 a)
  then show ?case using alphabet_ascii enc_in_alphabet sextet_bounds by auto
next
  case (3 a b)
  then show ?case using alphabet_ascii enc_in_alphabet sextet_bounds by auto
next
  case (4 a b c rest)
  then show ?case using alphabet_ascii enc_in_alphabet sextet_bounds by auto
qed

lemma b64decode_b64encode: "b64decode (b64encode bs) = Inr bs"
  using encode_ascii [of _ bs] loop_encode [of bs 0 0 "[]"]
  by (auto simp: b64decode_def a2b_base64_def list_ex_iff not_le)

subsection \<open>The JSON branch of the parser\<close>

lemma b64encode_nonempty: "bs \<noteq> [] \<Longrightarrow> b64encode bs \<noteq> []"
  by (induction bs rule: b64encode.induct) auto

lemma valid_base64_iff: "valid_base64 s \<longleftrightarrow> (\<exists>bs. s = b64encode bs)"
  by (auto simp: valid_base64_def b64decode_b64encode split: sum.splits)

lemma body_get_obj: "body_get (JObj kvs) k = Inr (case dict_get kvs k of None \<Rightarrow> JNull | Some v \<Rightarrow> v)"
  by (simp add: body_get_def)

text \<open>
  Claim C5. For a request that is not multipart and whose body decodes to a JSON object
  with a non-empty str \<open>email\<close>, a non-empty str \<open>filename\<close> and, as \<open>arquivo\<close>,
  the base64 encoding of a non-empty byte sequence \<open>b\<close>, the parser returns exactly
  \<open>(email, filename, b)\<close>.
\<close>

theorem json_roundtrip:
  assumes "\<not> is_multipart ev"
    and "json_loads L (body_or ev ''{}'') = Some (JObj kvs)"
    and "dict_get kvs ''email'' = Some (JStr email)"
    and "dict_get kvs ''filename'' = Some (JStr filename)"
    and "dict_get kvs ''arquivo'' = Some (JStr (b64encode b))"
    and "email \<noteq> []" and "filename \<noteq> []" and "b \<noteq> []"
  shows "extrair_dados_requisicao L ev = Inr (JStr email, JStr filename, b)"
  using assms b64encode_nonempty [of b]
  by (simp add: extrair_dados_requisicao_def json_fields_def body_get_obj decode_arquivo_def
      b64decode_b64encode check_fields_def bytes_truthy_def)

theorem json_roundtrip_witness:
  "extrair_dados_requisicao sample_library (json_event json_text_ok)
     = Inr (JStr ''ana@fiap.br'', JStr ''aula.mp4'', [65, 66, 67])"
proof -
  have e: "b64encode [65, 66, 67] = ''QUJD''" by code_simp
  have 1: "\<not> is_multipart (json_event json_text_ok)" by code_simp
  have 2: "json_loads sample_library (body_or (json_event json_text_ok) ''{}'')
     = Some (JObj [(''email'', JStr ''ana@fiap.br''), (''filename'', JStr ''aula.mp4''),
           (''arquivo'', JStr ''QUJD'')])" by code_simp
  show ?thesis
    using json_roundtrip [OF 1 2, of "''ana@fiap.br''" "''aula.mp4''" "[65, 66, 67]"] e
    by (simp add: dict_get_def)
qed

subsection \<open>The closing check of the parser\<close>

lemma check_fields_rejects:
  "\<not> truthy email \<or> \<not> truthy nome \<or> \<not> bytes_truthy b \<Longrightarrow>
     check_fields (email, nome, b) = Inl (Exc ValueErrorK msg_parametros_ausentes)"
  by (auto simp: check_fields_def)

lemma check_fields_Inr:
  "check_fields vars = Inr (email, nome, bs) \<Longrightarrow> truthy email \<and> truthy nome \<and> bs \<noteq> []"
  by (cases vars) (auto simp: check_fields_def bytes_truthy_def split: if_splits option.splits)

lemma parser_returns_nonempty:
  "extrair_dados_requisicao L ev = Inr (email, nome, bs) \<Longrightarrow>
     truthy email \<and> truthy nome \<and> bs \<noteq> []"
  by (auto simp: extrair_dados_requisicao_def split: sum.splits if_splits dest: check_fields_Inr)

text \<open>
  Claim C4. The parser is to fail with a MalformedRequest error, the ValueError that
  the handler answers with status 400, unless the three fields are present and not
  empty. The closing check does so for every request that reaches it
  (\<open>check_fields_rejects\<close>, \<open>parser_returns_nonempty\<close>), but a body that decodes to a
  JSON value other than an object does not reach it: on the body \<^verbatim>\<open>[]\<close>, which has
  none of the fields, \<^verbatim>\<open>body.get('email')\<close> raises AttributeError, which is not a
  ValueError, and the handler lets it escape instead of answering 400.
\<close>

theorem non_object_body_escapes:
  "extrair_dados_requisicao sample_library (json_event ''[]'')
     = Inl (Exc ExceptionK ([CHR 0x27] @ ''list'' @ [CHR 0x27] @ '' object has no attribute ''
                              @ [CHR 0x27] @ ''get'' @ [CHR 0x27]))
   \<and> fst (lambda_handler sample_library (sample_world 3) (json_event ''[]'') empty_state)
     = Inl (Exc ExceptionK ([CHR 0x27] @ ''list'' @ [CHR 0x27] @ '' object has no attribute ''
                              @ [CHR 0x27] @ ''get'' @ [CHR 0x27]))"
  by code_simp

subsection \<open>Invalid base64\<close>

lemma table_None_iff: "table_a2b_base64 c = None \<longleftrightarrow> c \<notin> set b64_alphabet"
proof -
  have "map fst (zip b64_alphabet [0 ..< 64]) = b64_alphabet"
    by (simp add: alphabet_length)
  then have "fst ` set (zip b64_alphabet [0 ..< 64]) = set b64_alphabet"
    by (metis set_map)
  then show ?thesis
    by (simp add: table_a2b_base64_def map_of_eq_None_iff)
qed

lemma loop_skip:
  "c \<noteq> CHR ''='' \<Longrightarrow> table_a2b_base64 c = None \<Longrightarrow>
     a2b_base64_loop (c # cs) q l p out = a2b_base64_loop cs q l p out"
  by simp

lemma loop_data:
  assumes "c \<noteq> CHR ''=''" and "table_a2b_base64 c = Some v"
  shows "a2b_base64_loop (c # cs) 0 l p out = a2b_base64_loop cs 1 v 0 out"
    and "a2b_base64_loop (c # cs) 1 l p out
           = a2b_base64_loop cs 2 (v AND 0x0f) 0 (out @ [push_bit 2 l OR drop_bit 4 v])"
    and "a2b_base64_loop (c # cs) 2 l p out
           = a2b_base64_loop cs 3 (v AND 0x03) 0 (out @ [push_bit 4 l OR drop_bit 2 v])"
    and "a2b_base64_loop (c # cs) 3 l p out
           = a2b_base64_loop cs 0 0 0 (out @ [push_bit 6 l OR v])"
  using assms by simp_all

lemma loop_pad:
  shows "q < 2 \<Longrightarrow> a2b_base64_loop (CHR ''='' # cs) q l p out = a2b_base64_loop cs q l p out"
    and "a2b_base64_loop (CHR ''='' # cs) 2 l 0 out = a2b_base64_loop cs 2 l 1 out"
    and "a2b_base64_loop (CHR ''='' # cs) 2 l 1 out = Inr out"
    and "a2b_base64_loop (CHR ''='' # cs) 3 l 0 out = Inr out"
  by simp_all

text \<open>The two ways in which a padding completes a group, with \<open>q\<close> data characters read.\<close>

lemma padding_completes_iff:
  "padding_completes q t \<longleftrightarrow>
     (\<exists>u r. t = u @ CHR ''='' # r \<and> (q + data_count u) mod 4 = 3)
     \<or> (\<exists>u r. t = u @ CHR ''='' # CHR ''='' # r \<and> (q + data_count u) mod 4 = 2)"
  (is "?L \<longleftrightarrow> ?A \<or> ?B")
proof
  assume ?L
  then obtain u where "((q + data_count u) mod 4 = 3 \<and> prefix (u @ ''='') t)
                  \<or> ((q + data_count u) mod 4 = 2 \<and> prefix (u @ ''=='') t)"
    by (auto simp: padding_completes_def list_ex_iff)
  then show "?A \<or> ?B"
    by (auto simp: prefix_def)
next
  assume "?A \<or> ?B"
  then show ?L
  proof
    assume ?A
    then obtain u r where t: "t = u @ CHR ''='' # r" and m: "(q + data_count u) mod 4 = 3"
      by blast
    have "u \<in> set (prefixes t)" by (simp add: t in_set_prefixes)
    moreover have "prefix (u @ ''='') t" by (simp add: t prefix_def)
    ultimately show ?L using m by (auto simp: padding_completes_def list_ex_iff)
  next
    assume ?B
    then obtain u r where t: "t = u @ CHR ''='' # CHR ''='' # r"
      and m: "(q + data_count u) mod 4 = 2"
      by blast
    have "u \<in> set (prefixes t)" by (simp add: t in_set_prefixes)
    moreover have "prefix (u @ ''=='') t" by (simp add: t prefix_def)
    ultimately show ?L using m by (auto simp: padding_completes_def list_ex_iff)
  qed
qed

lemma data_count_simps:
  "data_count [] = 0"
  "data_count (CHR ''='' # s) = data_count s"
  "is_data c \<Longrightarrow> data_count (c # s) = Suc (data_count s)"
  "\<not> is_data c \<Longrightarrow> data_count (c # s) = data_count s"
  using alphabet_nopad by (simp_all add: data_count_def is_data_def)

lemma data_count_significant: "data_count (significant s) = data_count s"
proof -
  have "filter is_data (filter (\<lambda>c. c = CHR ''='' \<or> is_data c) s) = filter is_data s"
    by (induction s) auto
  then show ?thesis by (simp add: data_count_def significant_def)
qed

text \<open>A padding completes a group of \<open>c # t\<close> when \<open>c\<close> is a data character.\<close>

lemma completes_data:
  assumes "is_data c"
  shows "padding_completes q (c # t) \<longleftrightarrow> padding_completes (Suc q) t"
proof -
  have ne: "c \<noteq> CHR ''=''" using assms alphabet_nopad by (auto simp: is_data_def)
  have a: "(\<exists>u r. c # t = u @ CHR ''='' # r \<and> (q + data_count u) mod 4 = 3)
      \<longleftrightarrow> (\<exists>u r. t = u @ CHR ''='' # r \<and> (Suc q + data_count u) mod 4 = 3)"
  proof
    assume "\<exists>u r. c # t = u @ CHR ''='' # r \<and> (q + data_count u) mod 4 = 3"
    then obtain u r where e: "c # t = u @ CHR ''='' # r" and m: "(q + data_count u) mod 4 = 3"
      by blast
    from e ne obtain u' where u: "u = c # u'" and t: "t = u' @ CHR ''='' # r"
      by (cases u) auto
    show "\<exists>u r. t = u @ CHR ''='' # r \<and> (Suc q + data_count u) mod 4 = 3"
      using t m by (auto simp: u data_count_simps(3) [OF assms])
  next
    assume "\<exists>u r. t = u @ CHR ''='' # r \<and> (Suc q + data_count u) mod 4 = 3"
    then obtain u r where t: "t = u @ CHR ''='' # r" and m: "(Suc q + data_count u) mod 4 = 3"
      by blast
    have "c # t = (c # u) @ CHR ''='' # r" by (simp add: t)
    moreover have "(q + data_count (c # u)) mod 4 = 3"
      using m by (simp add: data_count_simps(3) [OF assms])
    ultimately show "\<exists>u r. c # t = u @ CHR ''='' # r \<and> (q + data_count u) mod 4 = 3"
      by blast
  qed
  have b: "(\<exists>u r. c # t = u @ CHR ''='' # CHR ''='' # r \<and> (q + data_count u) mod 4 = 2)
      \<longleftrightarrow> (\<exists>u r. t = u @ CHR ''='' # CHR ''='' # r \<and> (Suc q + data_count u) mod 4 = 2)"
  proof
    assume "\<exists>u r. c # t = u @ CHR ''='' # CHR ''='' # r \<and> (q + data_count u) mod 4 = 2"
    then obtain u r where e: "c # t = u @ CHR ''='' # CHR ''='' # r"
      and m: "(q + data_count u) mod 4 = 2"
      by blast
    from e ne obtain u' where u: "u = c # u'" and t: "t = u' @ CHR ''='' # CHR ''='' # r"
      by (cases u) auto
    show "\<exists>u r. t = u @ CHR ''='' # CHR ''='' # r \<and> (Suc q + data_count u) mod 4 = 2"
      using t m by (auto simp: u data_count_simps(3) [OF assms])
  next
    assume "\<exists>u r. t = u @ CHR ''='' # CHR ''='' # r \<and> (Suc q + data_count u) mod 4 = 2"
    then obtain u r where t: "t = u @ CHR ''='' # CHR ''='' # r"
      and m: "(Suc q + data_count u) mod 4 = 2"
      by blast
    have "c # t = (c # u) @ CHR ''='' # CHR ''='' # r" by (simp add: t)
    moreover have "(q + data_count (c # u)) mod 4 = 2"
      using m by (simp add: data_count_simps(3) [OF assms])
    ultimately show "\<exists>u r. c # t = u @ CHR ''='' # CHR ''='' # r \<and> (q + data_count u) mod 4 = 2"
      by blast
  qed
  show ?thesis unfolding padding_completes_iff a b ..
qed

text \<open>
  A padding completes a group of \<open>CHR ''='' # t\<close>: at once after 3 data characters
  modulo 4, with the next \<^verbatim>\<open>=\<close> after 2, or later in \<open>t\<close>.
\<close>

lemma completes_pad:
  "padding_completes q (CHR ''='' # t) \<longleftrightarrow>
     q mod 4 = 3 \<or> (q mod 4 = 2 \<and> (\<exists>r. t = CHR ''='' # r)) \<or> padding_completes q t"
proof -
  have a: "(\<exists>u r. CHR ''='' # t = u @ CHR ''='' # r \<and> (q + data_count u) mod 4 = 3)
      \<longleftrightarrow> q mod 4 = 3 \<or> (\<exists>u r. t = u @ CHR ''='' # r \<and> (q + data_count u) mod 4 = 3)"
  proof
    assume "\<exists>u r. CHR ''='' # t = u @ CHR ''='' # r \<and> (q + data_count u) mod 4 = 3"
    then obtain u r where e: "CHR ''='' # t = u @ CHR ''='' # r"
      and m: "(q + data_count u) mod 4 = 3"
      by blast
    show "q mod 4 = 3 \<or> (\<exists>u r. t = u @ CHR ''='' # r \<and> (q + data_count u) mod 4 = 3)"
    proof (cases u)
      case Nil
      then show ?thesis using m by (simp add: data_count_simps)
    next
      case (Cons x u')
      then have "x = CHR ''=''" "t = u' @ CHR ''='' # r" using e by auto
      then show ?thesis using m Cons by (auto simp: data_count_simps)
    qed
  next
    assume "q mod 4 = 3 \<or> (\<exists>u r. t = u @ CHR ''='' # r \<and> (q + data_count u) mod 4 = 3)"
    then show "\<exists>u r. CHR ''='' # t = u @ CHR ''='' # r \<and> (q + data_count u) mod 4 = 3"
    proof
      assume "q mod 4 = 3"
      then have "CHR ''='' # t = [] @ CHR ''='' # t \<and> (q + data_count []) mod 4 = 3"
        by (simp add: data_count_simps)
      then show ?thesis by blast
    next
      assume "\<exists>u r. t = u @ CHR ''='' # r \<and> (q + data_count u) mod 4 = 3"
      then obtain u r where t: "t = u @ CHR ''='' # r" and m: "(q + data_count u) mod 4 = 3"
        by blast
      have "CHR ''='' # t = (CHR ''='' # u) @ CHR ''='' # r
          \<and> (q + data_count (CHR ''='' # u)) mod 4 = 3"
        using t m by (simp add: data_count_simps)
      then show ?thesis by blast
    qed
  qed
  have b: "(\<exists>u r. CHR ''='' # t = u @ CHR ''='' # CHR ''='' # r \<and> (q + data_count u) mod 4 = 2)
      \<longleftrightarrow> (q mod 4 = 2 \<and> (\<exists>r. t = CHR ''='' # r))
          \<or> (\<exists>u r. t = u @ CHR ''='' # CHR ''='' # r \<and> (q + data_count u) mod 4 = 2)"
  proof
    assume "\<exists>u r. CHR ''='' # t = u @ CHR ''='' # CHR ''='' # r \<and> (q + data_count u) mod 4 = 2"
    then obtain u r where e: "CHR ''='' # t = u @ CHR ''='' # CHR ''='' # r"
      and m: "(q + data_count u) mod 4 = 2"
      by blast
    show "(q mod 4 = 2 \<and> (\<exists>r. t = CHR ''='' # r))
          \<or> (\<exists>u r. t = u @ CHR ''='' # CHR ''='' # r \<and> (q + data_count u) mod 4 = 2)"
    proof (cases u)
      case Nil
      then show ?thesis using m e by (simp add: data_count_simps)
    next
      case (Cons x u')
      then have "x = CHR ''=''" "t = u' @ CHR ''='' # CHR ''='' # r" using e by auto
      then show ?thesis using m Cons by (auto simp: data_count_simps)
    qed
  next
    assume "(q mod 4 = 2 \<and> (\<exists>r. t = CHR ''='' # r))
          \<or> (\<exists>u r. t = u @ CHR ''='' # CHR ''='' # r \<and> (q + data_count u) mod 4 = 2)"
    then show "\<exists>u r. CHR ''='' # t = u @ CHR ''='' # CHR ''='' # r \<and> (q + data_count u) mod 4 = 2"
    proof
      assume "q mod 4 = 2 \<and> (\<exists>r. t = CHR ''='' # r)"
      then obtain r where "t = CHR ''='' # r" "q mod 4 = 2" by blast
      then have "CHR ''='' # t = [] @ CHR ''='' # CHR ''='' # r \<and> (q + data_count []) mod 4 = 2"
        by (simp add: data_count_simps)
      then show ?thesis by blast
    next
      assume "\<exists>u r. t = u @ CHR ''='' # CHR ''='' # r \<and> (q + data_count u) mod 4 = 2"
      then obtain u r where t: "t = u @ CHR ''='' # CHR ''='' # r"
        and m: "(q + data_count u) mod 4 = 2"
        by blast
      have "CHR ''='' # t = (CHR ''='' # u) @ CHR ''='' # CHR ''='' # r
          \<and> (q + data_count (CHR ''='' # u)) mod 4 = 2"
        using t m by (simp add: data_count_simps)
      then show ?thesis by blast
    qed
  qed
  show ?thesis unfolding padding_completes_iff a b by blast
qed

lemma completes_Nil: "\<not> padding_completes q []"
  by (simp add: padding_completes_iff)

lemma completes_period: "padding_completes (q + 4) t \<longleftrightarrow> padding_completes q t"
proof -
  have "\<And>d. (q + 4 + d) mod 4 = (q + d) mod 4" by presburger
  then show ?thesis by (simp add: padding_completes_iff)
qed

lemma significant_simps:
  "significant [] = []"
  "significant (CHR ''='' # s) = CHR ''='' # significant s"
  "is_data c \<Longrightarrow> significant (c # s) = c # significant s"
  "c \<noteq> CHR ''='' \<Longrightarrow> \<not> is_data c \<Longrightarrow> significant (c # s) = significant s"
  by (simp_all add: significant_def)

lemma loop_rejects:
  assumes "q < 4" and "q = 3 \<longrightarrow> p = 0" and "q = 2 \<longrightarrow> p \<le> 1"
  shows "(\<exists>e. a2b_base64_loop s q l p out = Inl e) \<longleftrightarrow>
           \<not> (padding_completes q (significant s)
               \<or> (q = 2 \<and> p = 1 \<and> (\<exists>r. significant s = CHR ''='' # r)))
           \<and> (q + data_count s) mod 4 \<noteq> 0"
  using assms
proof (induction s arbitrary: q l p out)
  case Nil
  then show ?case
    by (simp add: completes_Nil significant_simps data_count_simps)
next
  case (Cons c cs)
  show ?case
  proof (cases "c = CHR ''=''")
    case True
    note pad = True
    consider "q < 2" | "q = 2" "p = 0" | "q = 2" "p = 1" | "q = 3" "p = 0"
      using Cons.prems by linarith
    then show ?thesis
    proof cases
      case 1
      have m: "q mod 4 \<noteq> 3" "q mod 4 \<noteq> 2" "q \<noteq> 2" using 1 by simp_all
      show ?thesis
        unfolding pad loop_pad(1) [OF 1] significant_simps(2) data_count_simps(2) completes_pad
        using Cons.IH [of q p l out] 1 m by simp
    next
      case 2
      have i: "(\<exists>e. a2b_base64_loop cs 2 l 1 out = Inl e) \<longleftrightarrow>
           \<not> (padding_completes 2 (significant cs)
               \<or> ((2::nat) = 2 \<and> (1::nat) = 1 \<and> (\<exists>r. significant cs = CHR ''='' # r)))
           \<and> (2 + data_count cs) mod 4 \<noteq> 0"
        by (rule Cons.IH) simp_all
      show ?thesis
        unfolding pad 2 loop_pad(2) significant_simps(2) data_count_simps(2) completes_pad
        using i by auto
    next
      case 3
      show ?thesis
        unfolding pad 3 loop_pad(3) significant_simps(2) by simp
    next
      case 4
      show ?thesis
        unfolding pad 4 loop_pad(4) significant_simps(2) completes_pad by simp
    qed
  next
    case False
    note ne = False
    show ?thesis
    proof (cases "table_a2b_base64 c")
      case None
      then have nd: "\<not> is_data c" by (simp add: table_None_iff is_data_def)
      show ?thesis
        unfolding loop_skip [OF ne None] significant_simps(4) [OF ne nd] data_count_simps(4) [OF nd]
        by (rule Cons.IH [OF Cons.prems])
    next
      case (Some v)
      then have d: "is_data c" using table_None_iff [of c] by (auto simp: is_data_def)
      note st = loop_data [OF ne Some]
      have x: "\<not> (\<exists>r. c # significant cs = CHR ''='' # r)" using ne by simp
      consider "q = 0" | "q = 1" | "q = 2" | "q = 3" using Cons.prems(1) by linarith
      then show ?thesis
      proof cases
        case 1
        have i: "(\<exists>e. a2b_base64_loop cs 1 v 0 out = Inl e) \<longleftrightarrow>
           \<not> (padding_completes 1 (significant cs)
               \<or> ((1::nat) = 2 \<and> (0::nat) = 1 \<and> (\<exists>r. significant cs = CHR ''='' # r)))
           \<and> (1 + data_count cs) mod 4 \<noteq> 0"
          by (rule Cons.IH) simp_all
        show ?thesis
          unfolding 1 st(1) significant_simps(3) [OF d] data_count_simps(3) [OF d]
            completes_data [OF d]
          using i x by simp
      next
        case 2
        have i: "(\<exists>e. a2b_base64_loop cs 2 (v AND 0x0f) 0
                      (out @ [push_bit 2 l OR drop_bit 4 v]) = Inl e) \<longleftrightarrow>
           \<not> (padding_completes 2 (significant cs)
               \<or> ((2::nat) = 2 \<and> (0::nat) = 1 \<and> (\<exists>r. significant cs = CHR ''='' # r)))
           \<and> (2 + data_count cs) mod 4 \<noteq> 0"
          by (rule Cons.IH) simp_all
        have s2: "Suc 1 = 2" by simp
        show ?thesis
          unfolding 2 st(2) significant_simps(3) [OF d] data_count_simps(3) [OF d]
            completes_data [OF d] s2
          using i x by simp
      next
        case 3
        have i: "(\<exists>e. a2b_base64_loop cs 3 (v AND 0x03) 0
                      (out @ [push_bit 4 l OR drop_bit 2 v]) = Inl e) \<longleftrightarrow>
           \<not> (padding_completes 3 (significant cs)
               \<or> ((3::nat) = 2 \<and> (0::nat) = 1 \<and> (\<exists>r. significant cs = CHR ''='' # r)))
           \<and> (3 + data_count cs) mod 4 \<noteq> 0"
          by (rule Cons.IH) simp_all
        have s3: "Suc 2 = 3" by simp
        show ?thesis
          unfolding 3 st(3) significant_simps(3) [OF d] data_count_simps(3) [OF d]
            completes_data [OF d] s3
          using i x by simp
      next
        case 4
        have i: "(\<exists>e. a2b_base64_loop cs 0 0 0 (out @ [push_bit 6 l OR v]) = Inl e) \<longleftrightarrow>
           \<not> (padding_completes 0 (significant cs)
               \<or> ((0::nat) = 2 \<and> (0::nat) = 1 \<and> (\<exists>r. significant cs = CHR ''='' # r)))
           \<and> (0 + data_count cs) mod 4 \<noteq> 0"
          by (rule Cons.IH) simp_all
        have s4: "padding_completes (Suc 3) (significant cs)
            \<longleftrightarrow> padding_completes 0 (significant cs)"
          using completes_period [of 0 "significant cs"] by (simp add: numeral_Bit0)
        have m: "(3 + Suc (data_count cs)) mod 4 = data_count cs mod 4" by presburger
        show ?thesis
          unfolding 4 st(4) significant_simps(3) [OF d] data_count_simps(3) [OF d]
            completes_data [OF d] s4 m
          using i x by simp
      qed
    qed
  qed
qed

lemma b64decode_rejects_iff: "(\<exists>e. b64decode s = Inl e) \<longleftrightarrow> decoder_rejects s"
proof (cases "list_ex (\<lambda>c. (of_char c :: nat) \<ge> 128) s")
  case True
  then show ?thesis by (simp add: b64decode_def decoder_rejects_def)
next
  case False
  have "(\<exists>e. a2b_base64_loop s 0 0 0 [] = Inl e) \<longleftrightarrow>
           \<not> (padding_completes 0 (significant s)
               \<or> ((0::nat) = 2 \<and> (0::nat) = 1 \<and> (\<exists>r. significant s = CHR ''='' # r)))
           \<and> (0 + data_count s) mod 4 \<noteq> 0"
    by (rule loop_rejects) simp_all
  then show ?thesis
    using False by (simp add: b64decode_def a2b_base64_def decoder_rejects_def)
qed

text \<open>
  The statement that every \<open>arquivo\<close> which is not a valid base64 encoding is rejected
  fails: \<^verbatim>\<open>QUJD!\<close> is not the encoding of any bytes, and the parser returns the three
  bytes of \<^verbatim>\<open>QUJD\<close>, because the decoder skips the characters outside the alphabet.
\<close>

theorem lenient_decoding_counterexample:
  "\<not> is_multipart (json_event json_text_lenient)
   \<and> json_loads sample_library json_text_lenient = Some (json_object ''QUJD!'')
   \<and> \<not> valid_base64 ''QUJD!''
   \<and> extrair_dados_requisicao sample_library (json_event json_text_lenient)
       = Inr (JStr ''ana@fiap.br'', JStr ''aula.mp4'', [65, 66, 67])"
  by code_simp

lemma messages_differ: "msg_parametros_ausentes \<noteq> msg_base64_invalido"
  by (simp add: msg_parametros_ausentes_def msg_base64_invalido_def)

lemma check_fields_not_base64:
  "check_fields vars \<noteq> Inl (Exc ValueErrorK msg_base64_invalido)"
  by (cases vars) (auto simp: check_fields_def messages_differ)

lemma decode_arquivo_iff:
  assumes "truthy v"
  shows "(\<exists>e. decode_arquivo v = Inl e) \<longleftrightarrow> (case v of JStr s \<Rightarrow> decoder_rejects s | _ \<Rightarrow> True)"
    and "decode_arquivo v = Inl e \<Longrightarrow> e = Exc ValueErrorK msg_base64_invalido"
proof -
  show "(\<exists>e. decode_arquivo v = Inl e) \<longleftrightarrow> (case v of JStr s \<Rightarrow> decoder_rejects s | _ \<Rightarrow> True)"
  proof (cases v)
    case (JStr s)
    show ?thesis
      using assms b64decode_rejects_iff [of s, symmetric]
      by (auto simp: JStr decode_arquivo_def split: sum.splits)
  qed (use assms in \<open>simp_all add: decode_arquivo_def\<close>)
  show "decode_arquivo v = Inl e \<Longrightarrow> e = Exc ValueErrorK msg_base64_invalido"
    by (auto simp: decode_arquivo_def split: json.splits sum.splits if_splits)
qed

text \<open>
  Claim C6, amended. In the JSON branch, for every request whose \<open>arquivo\<close> field is
  present with a true value, the parser fails with the ValueError
  \<open>msg_base64_invalido\<close> exactly when the value is not a str, or is a str that the
  decoder of the source rejects: one with a character above 127, or one in which, the
  characters outside the alphabet left aside, no padding completes a group and the
  number of characters of the alphabet is not a multiple of 4. The other fields do not
  matter. A str that is not a valid encoding but is not rejected in this way, such as
  \<^verbatim>\<open>QUJD!\<close>, is decoded.
\<close>

theorem base64_rejected:
  assumes "\<not> is_multipart ev"
    and "json_loads L (body_or ev ''{}'') = Some (JObj kvs)"
    and "dict_get kvs ''arquivo'' = Some v"
    and "truthy v"
  shows "extrair_dados_requisicao L ev = Inl (Exc ValueErrorK msg_base64_invalido)
           \<longleftrightarrow> (case v of JStr s \<Rightarrow> decoder_rejects s | _ \<Rightarrow> True)"
proof (cases "decode_arquivo v")
  case (Inl e)
  then have "e = Exc ValueErrorK msg_base64_invalido"
    by (rule decode_arquivo_iff(2) [OF assms(4)])
  then have "extrair_dados_requisicao L ev = Inl (Exc ValueErrorK msg_base64_invalido)"
    using assms(1-3) Inl
    by (simp add: extrair_dados_requisicao_def json_fields_def body_get_def)
  then show ?thesis using decode_arquivo_iff(1) [OF assms(4)] Inl by simp
next
  case (Inr ab)
  then have "extrair_dados_requisicao L ev \<noteq> Inl (Exc ValueErrorK msg_base64_invalido)"
    using assms(1-3) check_fields_not_base64
    by (simp add: extrair_dados_requisicao_def json_fields_def body_get_def)
  then show ?thesis using decode_arquivo_iff(1) [OF assms(4)] Inr by simp
qed

theorem base64_rejected_witness:
  "extrair_dados_requisicao sample_library (json_event json_text_bad_padding)
     = Inl (Exc ValueErrorK msg_base64_invalido)
   \<and> extrair_dados_requisicao sample_library (json_event json_text_number)
     = Inl (Exc ValueErrorK msg_base64_invalido)
   \<and> extrair_dados_requisicao sample_library (json_event json_text_lenient)
     \<noteq> Inl (Exc ValueErrorK msg_base64_invalido)"
proof -
  have a1: "\<not> is_multipart (json_event json_text_bad_padding)" by code_simp
  have a2: "json_loads sample_library (body_or (json_event json_text_bad_padding) ''{}'')
     = Some (JObj [(''email'', JStr ''ana@fiap.br''), (''filename'', JStr ''aula.mp4''),
           (''arquivo'', JStr ''QUJDR'')])" by code_simp
  have a3: "dict_get [(''email'', JStr ''ana@fiap.br''), (''filename'', JStr ''aula.mp4''),
           (''arquivo'', JStr ''QUJDR'')] ''arquivo'' = Some (JStr ''QUJDR'')" by code_simp
  have a4: "truthy (JStr ''QUJDR'')" by simp
  have a5: "decoder_rejects ''QUJDR''" by code_simp
  have b1: "\<not> is_multipart (json_event json_text_number)" by code_simp
  have b2: "json_loads sample_library (body_or (json_event json_text_number) ''{}'')
     = Some (JObj [(''email'', JStr ''ana@fiap.br''), (''filename'', JStr ''aula.mp4''),
           (''arquivo'', JInt 123)])" by code_simp
  have b3: "dict_get [(''email'', JStr ''ana@fiap.br''), (''filename'', JStr ''aula.mp4''),
           (''arquivo'', JInt 123)] ''arquivo'' = Some (JInt 123)" by code_simp
  have b4: "truthy (JInt 123)" by simp
  have c1: "\<not> is_multipart (json_event json_text_lenient)" by code_simp
  have c2: "json_loads sample_library (body_or (json_event json_text_lenient) ''{}'')
     = Some (JObj [(''email'', JStr ''ana@fiap.br''), (''filename'', JStr ''aula.mp4''),
           (''arquivo'', JStr ''QUJD!'')])" by code_simp
  have c3: "dict_get [(''email'', JStr ''ana@fiap.br''), (''filename'', JStr ''aula.mp4''),
           (''arquivo'', JStr ''QUJD!'')] ''arquivo'' = Some (JStr ''QUJD!'')" by code_simp
  have c4: "truthy (JStr ''QUJD!'')" by simp
  have c5: "\<not> decoder_rejects ''QUJD!''" by code_simp
  have 1: "extrair_dados_requisicao sample_library (json_event json_text_bad_padding)
     = Inl (Exc ValueErrorK msg_base64_invalido)"
    using base64_rejected [OF a1 a2 a3 a4] a5 by simp
  have 2: "extrair_dados_requisicao sample_library (json_event json_text_number)
     = Inl (Exc ValueErrorK msg_base64_invalido)"
    using base64_rejected [OF b1 b2 b3 b4] by simp
  have 3: "extrair_dados_requisicao sample_library (json_event json_text_lenient)
     \<noteq> Inl (Exc ValueErrorK msg_base64_invalido)"
    using base64_rejected [OF c1 c2 c3 c4] c5 by simp
  show ?thesis using 1 2 3 by blast
qed

subsection \<open>The multipart branch\<close>

text \<open>
  Claim C7. For two multipart requests whose bodies hold the same two parts in opposite
  orders, a file part (with a non-empty filename) and an email part (named
  \<^verbatim>\<open>email\<close>, without filename), the parser gives the same result: the error of
  decoding the email if there is one, otherwise what the closing check makes of the
  decoded email, the filename and the payload of the file part.
\<close>

theorem multipart_order:
  assumes "is_multipart ev1" and "is_multipart ev2"
    and "multipart_parts L ev1 (the (content_type_of ev1)) = Inr [fp, ep]"
    and "multipart_parts L ev2 (the (content_type_of ev2)) = Inr [ep, fp]"
    and "filename_truthy fp"
    and "\<not> filename_truthy ep" and "part_name ep = Some ''email''"
  shows "extrair_dados_requisicao L ev1 = extrair_dados_requisicao L ev2
    \<and> extrair_dados_requisicao L ev1 =
        (case decode_email L ep of
           Inl e \<Rightarrow> Inl e
         | Inr s \<Rightarrow> check_fields (JStr s, JStr (the (part_filename fp)), part_payload fp))"
  using assms
  by (simp add: extrair_dados_requisicao_def split: sum.splits)

theorem multipart_order_witness:
  "extrair_dados_requisicao sample_library (multipart_event multipart_file_first)
     = extrair_dados_requisicao sample_library (multipart_event multipart_email_first)
   \<and> extrair_dados_requisicao sample_library (multipart_event multipart_file_first)
     = Inr (JStr ''ana@fiap.br'', JStr ''aula.mp4'', [65, 66, 67])"
proof -
  have 1: "is_multipart (multipart_event multipart_file_first)" by code_simp
  have 2: "is_multipart (multipart_event multipart_email_first)" by code_simp
  have 3: "multipart_parts sample_library (multipart_event multipart_file_first)
             (the (content_type_of (multipart_event multipart_file_first)))
           = Inr [sample_file_part, sample_email_part]" by code_simp
  have 4: "multipart_parts sample_library (multipart_event multipart_email_first)
             (the (content_type_of (multipart_event multipart_email_first)))
           = Inr [sample_email_part, sample_file_part]" by code_simp
  have 5: "filename_truthy sample_file_part" by code_simp
  have 6: "\<not> filename_truthy sample_email_part" by code_simp
  have 7: "part_name sample_email_part = Some ''email''" by code_simp
  have 8: "decode_email sample_library sample_email_part = Inr ''ana@fiap.br''" by code_simp
  have 9: "check_fields (JStr ''ana@fiap.br'', JStr (the (part_filename sample_file_part)),
             part_payload sample_file_part)
           = Inr (JStr ''ana@fiap.br'', JStr ''aula.mp4'', [65, 66, 67])" by code_simp
  note m = multipart_order [OF 1 2 3 4 5 6 7]
  have b: "extrair_dados_requisicao sample_library (multipart_event multipart_file_first)
     = Inr (JStr ''ana@fiap.br'', JStr ''aula.mp4'', [65, 66, 67])"
    using conjunct2 [OF m] 8 9 by simp
  show ?thesis
    by (rule conjI [OF conjunct1 [OF m] b])
qed

subsection \<open>Missing configuration\<close>

text \<open>
  Claim C8. When the bucket or the table is not configured (unset or empty), the handler
  returns status 500 at once: whatever the event and the library are, the response is
  the configuration message and the state is the one it started from, with no action
  logged and the record store untouched.
\<close>

theorem config_missing:
  assumes "\<not> env_set (S3_BUCKET w) \<or> \<not> env_set (TABLE_NAME w)"
  shows "lambda_handler L w ev \<sigma> =
           (Inr (responder 500
                  (failure (if \<not> env_set (S3_BUCKET w) then msg_bucket else msg_table))), \<sigma>)"
  using assms by (auto simp: lambda_handler_def)

theorem config_missing_witness:
  "lambda_handler sample_library ((sample_world 3)\<lparr>S3_BUCKET := None\<rparr>) (json_event ''[]'')
       empty_state
     = (Inr (responder 500 (failure msg_bucket)), empty_state)
   \<and> lambda_handler sample_library ((sample_world 3)\<lparr>TABLE_NAME := Some []\<rparr>)
       (json_event json_text_ok) empty_state
     = (Inr (responder 500 (failure msg_table)), empty_state)"
proof -
  have 1: "\<not> env_set (S3_BUCKET ((sample_world 3)\<lparr>S3_BUCKET := None\<rparr>))
           \<or> \<not> env_set (TABLE_NAME ((sample_world 3)\<lparr>S3_BUCKET := None\<rparr>))"
    by (simp add: env_set_def)
  have 2: "\<not> env_set (S3_BUCKET ((sample_world 3)\<lparr>TABLE_NAME := Some []\<rparr>))
           \<or> \<not> env_set (TABLE_NAME ((sample_world 3)\<lparr>TABLE_NAME := Some []\<rparr>))"
    by (simp add: env_set_def)
  have 3: "env_set (S3_BUCKET ((sample_world 3)\<lparr>TABLE_NAME := Some []\<rparr>))"
    by (simp add: env_set_def sample_world_def)
  show ?thesis
    using config_missing [OF 1, of sample_library "json_event ''[]''" empty_state]
      config_missing [OF 2, of sample_library "json_event json_text_ok" empty_state] 3
    by (simp add: env_set_def)
qed

subsection \<open>The order of the frames\<close>

lemma dec_lt10: "n < 10 \<Longrightarrow> dec n = [digit_char n]"
  by (subst dec.simps) simp

lemma dec_ge10: "10 \<le> n \<Longrightarrow> dec n = dec (n div 10) @ [digit_char (n mod 10)]"
  by (subst dec.simps) simp

lemma dec_2: "10 \<le> n \<Longrightarrow> n < 100 \<Longrightarrow> dec n = [digit_char (n div 10), digit_char (n mod 10)]"
  by (simp add: dec_ge10 dec_lt10)

lemma dec_3:
  assumes "100 \<le> n" and "n < 1000"
  shows "dec n = [digit_char (n div 100), digit_char (n div 10 mod 10), digit_char (n mod 10)]"
proof -
  have a: "10 \<le> n" "10 \<le> n div 10" "n div 10 < 100" using assms by simp_all
  have b: "n div 10 div 10 = n div 100" by (simp add: div_mult2_eq [symmetric])
  show ?thesis
    by (simp add: dec_ge10 [OF a(1)] dec_2 [OF a(2) a(3)] b)
qed

lemma dec_4:
  assumes "1000 \<le> n" and "n < 10000"
  shows "dec n = [digit_char (n div 1000), digit_char (n div 100 mod 10),
              digit_char (n div 10 mod 10), digit_char (n mod 10)]"
proof -
  have a: "10 \<le> n" "100 \<le> n div 10" "n div 10 < 1000" using assms by simp_all
  have b: "n div 10 div 100 = n div 1000" "n div 10 div 10 = n div 100"
    by (simp_all add: div_mult2_eq [symmetric])
  show ?thesis
    by (simp add: dec_ge10 [OF a(1)] dec_3 [OF a(2) a(3)] b)
qed

lemma digit_char_0: "digit_char 0 = CHR ''0''"
  by (simp add: digit_char_def) code_simp

lemma pad4_digits:
  assumes "n < 10000"
  shows "replicate (4 - length (dec n)) CHR ''0'' @ dec n =
           [digit_char (n div 1000), digit_char (n div 100 mod 10),
            digit_char (n div 10 mod 10), digit_char (n mod 10)]"
proof -
  note z = digit_char_0
  have r: "replicate 3 CHR ''0'' = ''000''" "replicate 2 CHR ''0'' = ''00''"
    by (simp_all add: numeral_3_eq_3 numeral_2_eq_2)
  consider "n < 10" | "10 \<le> n" "n < 100" | "100 \<le> n" "n < 1000" | "1000 \<le> n"
    by linarith
  then show ?thesis
  proof cases
    case 1
    then show ?thesis by (simp add: dec_lt10 z r)
  next
    case 2
    then show ?thesis by (simp add: dec_2 z r)
  next
    case 3
    then show ?thesis by (simp add: dec_3 z)
  next
    case 4
    then show ?thesis using assms by (simp add: dec_4)
  qed
qed

lemma digit_char_less: "a < 10 \<Longrightarrow> b < 10 \<Longrightarrow> digit_char a < digit_char b \<longleftrightarrow> a < b"
  by (simp add: digit_char_def less_char_def)

lemma digit_char_eq: "a < 10 \<Longrightarrow> b < 10 \<Longrightarrow> digit_char a = digit_char b \<longleftrightarrow> a = b"
proof -
  assume "a < 10" "b < 10"
  then have "(of_char (digit_char a) :: nat) = of_char (digit_char b) \<longleftrightarrow> a = b"
    by (simp add: digit_char_def)
  then show ?thesis by (simp only: of_char_eq_iff)
qed

lemma frame_name_4:
  "n < 10000 \<Longrightarrow> frame_name n =
     ''frame_'' @ [digit_char (n div 1000), digit_char (n div 100 mod 10),
            digit_char (n div 10 mod 10), digit_char (n mod 10)] @ ''.png''"
  by (simp add: frame_name_def pad4_digits)

lemma less_by_parts:
  "r < 10 \<Longrightarrow> s < 10 \<Longrightarrow>
     10 * a + r < 10 * b + s \<longleftrightarrow> a < b \<or> a = b \<and> r < (s::nat)"
  by linarith

lemma less_by_digit:
  "(n::nat) < m \<longleftrightarrow> n div 10 < m div 10 \<or> n div 10 = m div 10 \<and> n mod 10 < m mod 10"
proof -
  have "n < m \<longleftrightarrow> 10 * (n div 10) + n mod 10 < 10 * (m div 10) + m mod 10"
    by simp
  also have "\<dots> \<longleftrightarrow> n div 10 < m div 10 \<or> n div 10 = m div 10 \<and> n mod 10 < m mod 10"
    by (rule less_by_parts) simp_all
  finally show ?thesis .
qed

lemma digits_lex:
  assumes "(n::nat) < m"
  shows "n div 1000 < m div 1000
      \<or> n div 1000 = m div 1000 \<and>
         (n div 100 mod 10 < m div 100 mod 10
          \<or> n div 100 mod 10 = m div 100 mod 10 \<and>
              (n div 10 mod 10 < m div 10 mod 10
               \<or> n div 10 mod 10 = m div 10 mod 10 \<and> n mod 10 < m mod 10))"
proof -
  have a: "n div 10 div 10 = n div 100" "m div 10 div 10 = m div 100"
    "n div 100 div 10 = n div 1000" "m div 100 div 10 = m div 1000"
    by (simp_all add: div_mult2_eq [symmetric])
  have e1: "n div 10 = m div 10 \<longleftrightarrow>
      n div 100 = m div 100 \<and> n div 10 mod 10 = m div 10 mod 10"
    using a(1,2) by (metis div_mult_mod_eq)
  have e2: "n div 100 = m div 100 \<longleftrightarrow>
      n div 1000 = m div 1000 \<and> n div 100 mod 10 = m div 100 mod 10"
    using a(3,4) by (metis div_mult_mod_eq)
  have l1: "n div 10 < m div 10 \<longleftrightarrow> n div 100 < m div 100 \<or>
      n div 100 = m div 100 \<and> n div 10 mod 10 < m div 10 mod 10"
    using less_by_digit [of "n div 10" "m div 10"] a(1,2) by simp
  have l2: "n div 100 < m div 100 \<longleftrightarrow> n div 1000 < m div 1000 \<or>
      n div 1000 = m div 1000 \<and> n div 100 mod 10 < m div 100 mod 10"
    using less_by_digit [of "n div 100" "m div 100"] a(3,4) by simp
  from assms have "n div 10 < m div 10 \<or> n div 10 = m div 10 \<and> n mod 10 < m mod 10"
    using less_by_digit [of n m] by simp
  then show ?thesis
    unfolding l1 e1 l2 e2 by blast
qed

lemma frame_name_mono:
  assumes "n < m" and "m < 10000"
  shows "frame_name n < frame_name m"
proof -
  have n: "n < 10000" using assms by simp
  have b: "n div 1000 < 10" "m div 1000 < 10" using n assms(2) by simp_all
  show ?thesis
    using digits_lex [OF assms(1)]
    by (simp add: frame_name_4 [OF n] frame_name_4 [OF assms(2)] digit_char_less digit_char_eq b)
qed

lemma append_less_iff: "p @ a < p @ b \<longleftrightarrow> a < (b :: string)"
  by (induction p) simp_all

lemma frame_name_head: "frame_name n = CHR ''f'' # tl (frame_name n)"
  by (simp add: frame_name_def)

lemma frame_path_prefix: "frame_path d n = frames_prefix d @ frame_name n"
proof -
  have "frame_name n \<noteq> [] \<and> hd (frame_name n) \<noteq> CHR ''/''"
    by (subst (1 2) frame_name_head) simp
  then show ?thesis
    by (auto simp: frame_path_def path_join_def frames_prefix_def Let_def)
qed

lemma frame_path_mono: "n < m \<Longrightarrow> m < 10000 \<Longrightarrow> frame_path d n < frame_path d m"
  by (simp add: frame_path_prefix append_less_iff frame_name_mono)

lemma sorted_frame_paths:
  assumes "k \<le> 9999"
  shows "sorted (map (frame_path d) [1 ..< Suc k])"
proof -
  have "sorted_wrt (\<lambda>x y. frame_path d x \<le> frame_path d y) [1 ..< Suc k]"
  proof (rule sorted_wrt_mono_rel [OF _ sorted_wrt_upt])
    fix x y
    assume "x \<in> set [1 ..< Suc k]" "y \<in> set [1 ..< Suc k]" "x < y"
    then have "x < y" "y < 10000" using assms by auto
    then show "frame_path d x \<le> frame_path d y"
      using frame_path_mono [of x y d] by simp
  qed
  then show ?thesis by (simp only: sorted_map)
qed

lemma extrair_frames_ok:
  assumes "decoder_ok w"
  shows "fst (extrair_frames w video_path tmp_dir \<sigma>) = Inr (sort (glob_result w))"
  using assms
  by (auto simp: extrair_frames_def decoder_ok_def Let_def split: sum.splits option.splits)

text \<open>
  Claim C9, amended. Whenever the decoder ran and exited with code 0, the extraction
  returns the produced paths sorted in the lexicographic order of \<^verbatim>\<open>sorted\<close>: a sorted
  list with the same elements as the listing of the directory. When the decoder has
  produced the frames 1 to \<open>k\<close> and \<open>k\<close> is at most 9999, so that every number has
  four digits, that list is the frames in the order of their numbers.
\<close>

theorem frames_sorted:
  assumes "decoder_ok w"
  shows "\<exists>frames. fst (extrair_frames w video_path tmp_dir \<sigma>) = Inr frames
           \<and> sorted frames \<and> mset frames = mset (glob_result w)
           \<and> (k \<le> 9999 \<and> mset (glob_result w) = mset (map (frame_path tmp_dir) [1 ..< Suc k])
                \<longrightarrow> frames = map (frame_path tmp_dir) [1 ..< Suc k])"
proof (intro exI conjI impI)
  show "fst (extrair_frames w video_path tmp_dir \<sigma>) = Inr (sort (glob_result w))"
    by (rule extrair_frames_ok [OF assms])
  show "sorted (sort (glob_result w))" by simp
  show "mset (sort (glob_result w)) = mset (glob_result w)" by simp
next
  assume a: "k \<le> 9999 \<and> mset (glob_result w) = mset (map (frame_path tmp_dir) [1 ..< Suc k])"
  show "sort (glob_result w) = map (frame_path tmp_dir) [1 ..< Suc k]"
  proof (rule properties_for_sort)
    show "mset (map (frame_path tmp_dir) [1 ..< Suc k]) = mset (glob_result w)"
      using a by simp
    show "sorted (map (frame_path tmp_dir) [1 ..< Suc k])"
      by (rule sorted_frame_paths) (use a in simp)
  qed
qed

lemma sample_world_fields:
  "makedirs_raises (sample_world k) = None"
  "run_result (sample_world k) = Inr (0, [])"
  "glob_result (sample_world k) = rev (map (frame_path ''/tmp/proc_x1'') [1 ..< Suc k])"
  by (simp_all add: sample_world_def del: upt_Suc)

lemma sample_world_decoder_ok: "decoder_ok (sample_world k)"
  by (simp add: decoder_ok_def sample_world_fields)

lemma sample_world_glob:
  "mset (glob_result (sample_world k)) = mset (map (frame_path ''/tmp/proc_x1'') [1 ..< Suc k])"
  by (simp only: sample_world_fields mset_rev)

theorem frames_sorted_witness:
  "fst (extrair_frames (sample_world 3) ''/tmp/proc_x1/20240131_120000_aula.mp4''
          ''/tmp/proc_x1'' empty_state)
     = Inr [''/tmp/proc_x1/frames/frame_0001.png'', ''/tmp/proc_x1/frames/frame_0002.png'',
            ''/tmp/proc_x1/frames/frame_0003.png'']"
proof -
  from frames_sorted [OF sample_world_decoder_ok, of 3 "''/tmp/proc_x1/20240131_120000_aula.mp4''"
      "''/tmp/proc_x1''" empty_state 3]
  obtain frames where
    f: "fst (extrair_frames (sample_world 3) ''/tmp/proc_x1/20240131_120000_aula.mp4''
          ''/tmp/proc_x1'' empty_state) = Inr frames"
    and i: "3 \<le> (9999::nat) \<and> mset (glob_result (sample_world 3))
              = mset (map (frame_path ''/tmp/proc_x1'') [1 ..< Suc 3])
            \<longrightarrow> frames = map (frame_path ''/tmp/proc_x1'') [1 ..< Suc 3]"
    by blast
  have "frames = map (frame_path ''/tmp/proc_x1'') [1 ..< Suc 3]"
    using i sample_world_glob [of 3] by simp
  also have "\<dots> = [''/tmp/proc_x1/frames/frame_0001.png'', ''/tmp/proc_x1/frames/frame_0002.png'',
            ''/tmp/proc_x1/frames/frame_0003.png'']"
    by code_simp
  finally show ?thesis using f by simp
qed

text \<open>
  With 10000 frames the two orders differ: the pattern writes the last frame to
  \<^verbatim>\<open>frame_10000.png\<close>, which the lexicographic order puts before
  \<^verbatim>\<open>frame_1001.png\<close>.
\<close>

lemma dec_10000:
  "dec 10000 = [digit_char 1, digit_char 0, digit_char 0, digit_char 0, digit_char 0]"
  by (simp add: dec_ge10 [of 10000] dec_4)

lemma frame_name_10000_less: "frame_name 10000 < frame_name 1001"
proof -
  have a: "frame_name 10000 =
      ''frame_'' @ [digit_char 1, digit_char 0, digit_char 0, digit_char 0, digit_char 0] @ ''.png''"
    by (simp add: frame_name_def dec_10000)
  have b: "frame_name 1001 =
      ''frame_'' @ [digit_char 1, digit_char 0, digit_char 0, digit_char 1] @ ''.png''"
    by (simp add: frame_name_4)
  show ?thesis
    unfolding a b by (simp add: digit_char_less)
qed

lemma not_sorted_beyond_9999:
  assumes "10000 \<le> k"
  shows "\<not> sorted (map (frame_path d) [1 ..< Suc k])"
proof
  assume s: "sorted (map (frame_path d) [1 ..< Suc k])"
  have l: "length (map (frame_path d) [1 ..< Suc k]) = k" by simp
  have "map (frame_path d) [1 ..< Suc k] ! 1000 \<le> map (frame_path d) [1 ..< Suc k] ! 9999"
    by (rule sorted_nth_mono [OF s]) (use assms in simp_all)
  moreover have "map (frame_path d) [1 ..< Suc k] ! 1000 = frame_path d 1001"
    using assms by (simp add: nth_map del: upt_Suc)
  moreover have "map (frame_path d) [1 ..< Suc k] ! 9999 = frame_path d 10000"
    using assms by (simp add: nth_map del: upt_Suc)
  ultimately have "frame_path d 1001 \<le> frame_path d 10000" by simp
  moreover have "frame_path d 10000 < frame_path d 1001"
    by (simp add: frame_path_prefix append_less_iff frame_name_10000_less)
  ultimately show False by simp
qed

theorem frames_order_counterexample:
  "decoder_ok (sample_world 10000)
   \<and> mset (glob_result (sample_world 10000))
       = mset (map (frame_path ''/tmp/proc_x1'') [1 ..< Suc 10000])
   \<and> fst (extrair_frames (sample_world 10000) ''/tmp/proc_x1/20240131_120000_aula.mp4''
            ''/tmp/proc_x1'' empty_state)
       \<noteq> Inr (map (frame_path ''/tmp/proc_x1'') [1 ..< Suc 10000])"
proof (intro conjI)
  show "decoder_ok (sample_world 10000)" by (rule sample_world_decoder_ok)
  show "mset (glob_result (sample_world 10000))
       = mset (map (frame_path ''/tmp/proc_x1'') [1 ..< Suc 10000])"
    by (rule sample_world_glob)
  show "fst (extrair_frames (sample_world 10000) ''/tmp/proc_x1/20240131_120000_aula.mp4''
            ''/tmp/proc_x1'' empty_state)
       \<noteq> Inr (map (frame_path ''/tmp/proc_x1'') [1 ..< Suc 10000])"
  proof
    assume "fst (extrair_frames (sample_world 10000) ''/tmp/proc_x1/20240131_120000_aula.mp4''
            ''/tmp/proc_x1'' empty_state)
       = Inr (map (frame_path ''/tmp/proc_x1'') [1 ..< Suc 10000])"
    then have "sort (glob_result (sample_world 10000))
       = map (frame_path ''/tmp/proc_x1'') [1 ..< Suc 10000]"
      unfolding extrair_frames_ok [OF sample_world_decoder_ok] by (simp only: sum.inject)
    then have "sorted (map (frame_path ''/tmp/proc_x1'') [1 ..< Suc 10000])"
      using sorted_sort [of "glob_result (sample_world 10000)"] by (simp only:)
    moreover have "(10000::nat) \<le> 10000" by simp
    ultimately show False by (rule notE [OF not_sorted_beyond_9999, rotated])
  qed
qed

subsection \<open>The effects of the pipeline\<close>

lemma sort_eq_Nil_iff: "sort xs = [] \<longleftrightarrow> xs = ([] :: string list)"
  by (metis length_0_conv length_sort)

lemma store_writes_append: "store_writes (xs @ ys) = store_writes xs @ store_writes ys"
  by (simp add: store_writes_def)

lemma log_emit: "log (emit a \<sigma>) = log \<sigma> @ [a]" and table_emit: "table (emit a \<sigma>) = table \<sigma>"
  by (simp_all add: emit_def)

lemma extrair_frames_cases:
  "(decoder_ok w \<and> fst (extrair_frames w vp d \<sigma>) = Inr (sort (glob_result w)))
   \<or> (\<not> decoder_ok w \<and> (\<exists>e. fst (extrair_frames w vp d \<sigma>) = Inl e))"
  by (auto simp: extrair_frames_def decoder_ok_def Let_def split: sum.splits option.splits if_splits)

lemma try_block_effect:
  assumes "try_block w bucket tbl email nome bs (strftime_now w) d uid rid \<sigma> = (r, \<sigma>')"
    and "table \<sigma> (email, uid) = Some it"
  shows "store_writes (log \<sigma>') = store_writes (log \<sigma>) @
           (if steps_ok w
            then [UpdateItem tbl (email, uid) (''outputs/frames_'' @ strftime_now w @ ''.zip'')
                    ''Concluido'' (length (glob_result w))]
            else [])"
    and "table \<sigma>' = (if steps_ok w \<and> update_item_raises w = None
                      then (table \<sigma>)((email, uid) \<mapsto>
                             it\<lparr>item_s3_key := Some (''outputs/frames_'' @ strftime_now w @ ''.zip''),
                                status := ''Concluido'',
                                item_frame_count := Some (length (glob_result w))\<rparr>)
                      else table \<sigma>)"
    and "is_200 r \<longleftrightarrow> steps_ok w \<and> update_item_raises w = None"
    and "is_200 r \<longrightarrow> r = Inr (responder 200
            \<lparr>success = True, message = msg_concluido (length (sort (glob_result w))),
             record_id = Some rid,
             s3_key = Some (''outputs/'' @ ''frames_'' @ strftime_now w @ ''.zip''),
             frame_count = Some (length (sort (glob_result w))),
             images = Some (map basename (sort (glob_result w)))\<rparr>)"
  using assms
  unfolding try_block_def salvar_video_local_def criar_arquivo_zip_def upload_para_s3_def
    atualizar_registro_concluido_def extrair_frames_def steps_ok_def decoder_ok_def
    is_200_def
  by (auto simp: Let_def log_emit table_emit store_writes_append store_writes_def sort_eq_Nil_iff
      responder_def failure_def
      split: sum.splits option.splits if_splits prod.splits)


lemma handler_validated:
  assumes "env_set (S3_BUCKET w)" and "env_set (TABLE_NAME w)"
    and "extrair_dados_requisicao L ev = Inr (email, JStr nome, bs)"
    and "validar_extensao nome"
  shows "lambda_handler L w ev \<sigma> = processar L w email nome bs \<sigma>"
  using assms by (simp add: lambda_handler_def)

lemma limpar_effect:
  "log (snd (limpar_diretorio_temporario w d \<sigma>)) = log \<sigma> @ [Rmtree d]
   \<and> table (snd (limpar_diretorio_temporario w d \<sigma>)) = table \<sigma>"
  by (auto simp: limpar_diretorio_temporario_def Let_def log_emit table_emit split: option.splits)

lemma limpar_result:
  "fst (limpar_diretorio_temporario w d \<sigma>) =
     (case rmtree_raises w of
        None \<Rightarrow> Inr ()
      | Some e \<Rightarrow> if is_Exception e then Inr () else Inl e)"
  by (auto simp: limpar_diretorio_temporario_def Let_def split: option.splits)

lemma processar_setup_fails:
  assumes "\<not> setup_ok w"
  shows "\<exists>e. fst (processar L w email nome bs \<sigma>) = Inl e"
    and "table (snd (processar L w email nome bs \<sigma>)) = table \<sigma>"
    and "store_writes (log (snd (processar L w email nome bs \<sigma>))) = store_writes (log \<sigma>)"
  using assms
  by (auto simp: processar_def setup_ok_def Let_def emit_def store_writes_def
      split: option.splits)

lemma processar_put_fails:
  assumes "setup_ok w" and "put_item_raises w = Some e"
  shows "processar L w email nome bs \<sigma> =
     ((if is_Exception e
       then Inr (responder 500 (failure (msg_registro_inicial @ str_exc e)))
       else Inl e),
      \<sigma>\<lparr>log := log \<sigma> @ [Mkdtemp (mkdtemp_dir w),
                            PutItem (the (TABLE_NAME w)) (registro_inicial w email)]\<rparr>)"
  using assms
  by (simp add: processar_def setup_ok_def criar_registro_inicial_def Let_def emit_def
      registro_inicial_def)

lemma processar_put_ok:
  assumes "setup_ok w" and "put_item_raises w = None"
    and "processar L w email nome bs \<sigma> = (r, \<sigma>')"
  shows "\<exists>r1 \<sigma>1 \<sigma>2.
      \<sigma>1 = \<sigma>\<lparr>log := log \<sigma> @ [Mkdtemp (mkdtemp_dir w),
                            PutItem (the (TABLE_NAME w)) (registro_inicial w email)],
               table := (table \<sigma>)((email, uuid4_hex w) \<mapsto> registro_inicial w email)\<rparr>
      \<and> try_block w (the (S3_BUCKET w)) (the (TABLE_NAME w)) email nome bs (strftime_now w)
            (mkdtemp_dir w) (uuid4_hex w) (format_value L email @ ''_'' @ uuid4_hex w) \<sigma>1
          = (r1, \<sigma>2)
      \<and> \<sigma>' = snd (limpar_diretorio_temporario w (mkdtemp_dir w) \<sigma>2)
      \<and> r = (case fst (limpar_diretorio_temporario w (mkdtemp_dir w) \<sigma>2) of
                Inl e \<Rightarrow> Inl e
              | Inr u \<Rightarrow>
                  (case r1 of
                     Inl e \<Rightarrow> if is_Exception e
                              then Inr (responder 500 (failure (msg_erro_interno @ str_exc e)))
                              else Inl e
                   | Inr resp \<Rightarrow> Inr resp))"
  using assms
  by (auto simp: processar_def setup_ok_def criar_registro_inicial_def Let_def emit_def
      registro_inicial_def split: prod.splits sum.splits)








lemma sample_env: "env_set (S3_BUCKET (sample_world k))" "env_set (TABLE_NAME (sample_world k))"
  by (simp_all add: env_set_def sample_world_def del: upt_Suc)

lemma sample_parsed:
  "extrair_dados_requisicao sample_library (json_event json_text_ok)
     = Inr (JStr ''ana@fiap.br'', JStr ''aula.mp4'', [65, 66, 67])"
  by code_simp

lemma sample_extension: "validar_extensao ''aula.mp4''"
  by code_simp


lemma sample_setup_ok: "setup_ok (sample_world k)"
  by (simp add: setup_ok_def sample_world_def del: upt_Suc)


subsection \<open>The success response\<close>

lemma handler_200:
  assumes "lambda_handler L w ev \<sigma> = (Inr resp, \<sigma>')" and "statusCode resp = 200"
  shows "\<exists>email nome bs. env_set (S3_BUCKET w) \<and> env_set (TABLE_NAME w)
      \<and> extrair_dados_requisicao L ev = Inr (email, JStr nome, bs) \<and> validar_extensao nome
      \<and> processar L w email nome bs \<sigma> = (Inr resp, \<sigma>')"
  using assms
  by (auto simp: lambda_handler_def responder_def split: if_splits sum.splits json.splits)

lemma processar_200:
  assumes "processar L w email nome bs \<sigma> = (Inr resp, \<sigma>')" and "statusCode resp = 200"
  shows "steps_ok w \<and> resp = responder 200
            \<lparr>success = True, message = msg_concluido (length (sort (glob_result w))),
             record_id = Some (format_value L email @ ''_'' @ uuid4_hex w),
             s3_key = Some (''outputs/'' @ ''frames_'' @ strftime_now w @ ''.zip''),
             frame_count = Some (length (sort (glob_result w))),
             images = Some (map basename (sort (glob_result w)))\<rparr>"
proof -
  have st: "setup_ok w"
  proof (rule ccontr)
    assume "\<not> setup_ok w"
    from processar_setup_fails(1) [OF this, of L email nome bs \<sigma>] assms(1)
    show False by auto
  qed
  have None: "put_item_raises w = None"
  proof (cases "put_item_raises w")
    case (Some e)
    then show ?thesis
      using assms processar_put_fails [OF st Some, of L email nome bs \<sigma>]
      by (auto simp: responder_def split: if_splits)
  qed simp
  from processar_put_ok [OF st None assms(1)] obtain r1 \<sigma>1 \<sigma>2 where
    s1: "\<sigma>1 = \<sigma>\<lparr>log := log \<sigma> @ [Mkdtemp (mkdtemp_dir w),
                            PutItem (the (TABLE_NAME w)) (registro_inicial w email)],
               table := (table \<sigma>)((email, uuid4_hex w) \<mapsto> registro_inicial w email)\<rparr>"
    and t: "try_block w (the (S3_BUCKET w)) (the (TABLE_NAME w)) email nome bs (strftime_now w)
            (mkdtemp_dir w) (uuid4_hex w) (format_value L email @ ''_'' @ uuid4_hex w) \<sigma>1
          = (r1, \<sigma>2)"
    and r: "Inr resp = (case fst (limpar_diretorio_temporario w (mkdtemp_dir w) \<sigma>2) of
                Inl e \<Rightarrow> Inl e
              | Inr u \<Rightarrow>
                  (case r1 of
                     Inl e \<Rightarrow> if is_Exception e
                              then Inr (responder 500 (failure (msg_erro_interno @ str_exc e)))
                              else Inl e
                   | Inr resp \<Rightarrow> Inr resp))"
    by blast
  have k: "table \<sigma>1 (email, uuid4_hex w) = Some (registro_inicial w email)"
    by (simp add: s1)
  note e = try_block_effect [OF t k]
  have r1: "r1 = Inr resp"
    using r assms(2) by (auto simp: responder_def split: sum.splits if_splits)
  then have "is_200 r1" using assms(2) by (simp add: is_200_def)
  with e(3) e(4) r1 show ?thesis by simp
qed

text \<open>
  Claim C10. In every response with status 200 that the handler returns, \<open>images\<close> is
  the list of the base names of the frames that the extraction returns, in that order,
  \<open>frame_count\<close> is the length of that list, \<open>record_id\<close> is the user identifier as
  the f-string writes it, an underscore and the upload id, and \<open>s3_key\<close> begins with
  \<^verbatim>\<open>outputs/\<close>.
\<close>

theorem success_response:
  assumes "lambda_handler L w ev \<sigma> = (Inr resp, \<sigma>')" and "statusCode resp = 200"
  shows "\<exists>email nome bs frames.
      extrair_dados_requisicao L ev = Inr (email, JStr nome, bs)
      \<and> (\<forall>video_path tmp_dir s. fst (extrair_frames w video_path tmp_dir s) = Inr frames)
      \<and> images (response_body resp) = Some (map basename frames)
      \<and> frame_count (response_body resp) = Some (length (map basename frames))
      \<and> record_id (response_body resp) = Some (format_value L email @ ''_'' @ uuid4_hex w)
      \<and> (\<exists>zip_nome. s3_key (response_body resp) = Some (''outputs/'' @ zip_nome))"
proof -
  from handler_200 [OF assms] obtain email nome bs where
    p: "extrair_dados_requisicao L ev = Inr (email, JStr nome, bs)"
    and q: "processar L w email nome bs \<sigma> = (Inr resp, \<sigma>')"
    by blast
  from processar_200 [OF q assms(2)] have ok: "steps_ok w"
    and resp: "resp = responder 200
            \<lparr>success = True, message = msg_concluido (length (sort (glob_result w))),
             record_id = Some (format_value L email @ ''_'' @ uuid4_hex w),
             s3_key = Some (''outputs/'' @ ''frames_'' @ strftime_now w @ ''.zip''),
             frame_count = Some (length (sort (glob_result w))),
             images = Some (map basename (sort (glob_result w)))\<rparr>"
    by simp_all
  have d: "decoder_ok w" using ok by (simp add: steps_ok_def)
  have f: "\<forall>video_path tmp_dir s.
      fst (extrair_frames w video_path tmp_dir s) = Inr (sort (glob_result w))"
    using extrair_frames_cases d by blast
  show ?thesis
    apply (rule exI [of _ email], rule exI [of _ nome], rule exI [of _ bs])
    apply (rule exI [of _ "sort (glob_result w)"])
    using p f by (simp add: resp responder_def)
qed

theorem success_response_witness:
  "\<exists>resp frames.
      fst (lambda_handler sample_library (sample_world 3) (json_event json_text_ok) empty_state)
        = Inr resp
      \<and> (\<forall>video_path tmp_dir s.
            fst (extrair_frames (sample_world 3) video_path tmp_dir s) = Inr frames)
      \<and> images (response_body resp) = Some (map basename frames)
      \<and> images (response_body resp)
          = Some [''frame_0001.png'', ''frame_0002.png'', ''frame_0003.png'']
      \<and> frame_count (response_body resp) = Some 3
      \<and> record_id (response_body resp) = Some ''ana@fiap.br_0f8e''
      \<and> s3_key (response_body resp) = Some ''outputs/frames_20240131_120000.zip''"
proof -
  define resp where "resp = responder 200
     \<lparr>success = True, message = msg_concluido 3, record_id = Some ''ana@fiap.br_0f8e'',
      s3_key = Some ''outputs/frames_20240131_120000.zip'', frame_count = Some 3,
      images = Some [''frame_0001.png'', ''frame_0002.png'', ''frame_0003.png'']\<rparr>"
  have h: "fst (lambda_handler sample_library (sample_world 3) (json_event json_text_ok)
              empty_state) = Inr resp"
    unfolding resp_def by code_simp
  then have pair: "lambda_handler sample_library (sample_world 3) (json_event json_text_ok)
      empty_state = (Inr resp, snd (lambda_handler sample_library (sample_world 3)
          (json_event json_text_ok) empty_state))"
    by (metis prod.collapse)
  have st: "statusCode resp = 200" by (simp add: resp_def responder_def)
  from success_response [OF pair st] obtain frames where
    f: "\<forall>video_path tmp_dir s.
            fst (extrair_frames (sample_world 3) video_path tmp_dir s) = Inr frames"
    and i: "images (response_body resp) = Some (map basename frames)"
    by blast
  show ?thesis
    apply (rule exI [of _ resp], rule exI [of _ frames])
    using h f i by (simp add: resp_def responder_def)
qed

subsection \<open>The cleanup of the scratch directory\<close>

lemma try_block_log:
  "\<exists>actions. log (snd (try_block w bucket tbl email nome bs ts d uid rid \<sigma>)) = log \<sigma> @ actions"
  unfolding try_block_def salvar_video_local_def criar_arquivo_zip_def upload_para_s3_def
    atualizar_registro_concluido_def extrair_frames_def
  by (auto simp: Let_def log_emit split: sum.splits option.splits if_splits prod.splits)

lemma cleanup_after_initial_write:
  assumes "env_set (S3_BUCKET w)" and "env_set (TABLE_NAME w)"
    and "extrair_dados_requisicao L ev = Inr (email, JStr nome, bs)"
    and "validar_extensao nome"
    and "setup_ok w" and "put_item_raises w = None"
    and "lambda_handler L w ev \<sigma> = (r, \<sigma>')"
  shows "\<exists>actions. log \<sigma>' = log \<sigma> @ Mkdtemp (mkdtemp_dir w) # actions @ [Rmtree (mkdtemp_dir w)]"
proof -
  have p: "processar L w email nome bs \<sigma> = (r, \<sigma>')"
    using handler_validated [OF assms(1-4)] assms(7) by simp
  from processar_put_ok [OF assms(5,6) p] obtain r1 \<sigma>1 \<sigma>2 where
    s1: "\<sigma>1 = \<sigma>\<lparr>log := log \<sigma> @ [Mkdtemp (mkdtemp_dir w),
                            PutItem (the (TABLE_NAME w)) (registro_inicial w email)],
               table := (table \<sigma>)((email, uuid4_hex w) \<mapsto> registro_inicial w email)\<rparr>"
    and t: "try_block w (the (S3_BUCKET w)) (the (TABLE_NAME w)) email nome bs (strftime_now w)
            (mkdtemp_dir w) (uuid4_hex w) (format_value L email @ ''_'' @ uuid4_hex w) \<sigma>1
          = (r1, \<sigma>2)"
    and s': "\<sigma>' = snd (limpar_diretorio_temporario w (mkdtemp_dir w) \<sigma>2)"
    by blast
  from try_block_log [of w "the (S3_BUCKET w)" "the (TABLE_NAME w)" email nome bs "strftime_now w"
      "mkdtemp_dir w" "uuid4_hex w" "format_value L email @ ''_'' @ uuid4_hex w" \<sigma>1] t
  obtain actions where a: "log \<sigma>2 = log \<sigma>1 @ actions" by auto
  have "log \<sigma>' = log \<sigma> @ Mkdtemp (mkdtemp_dir w)
      # (PutItem (the (TABLE_NAME w)) (registro_inicial w email) # actions)
      @ [Rmtree (mkdtemp_dir w)]"
    by (simp add: s' limpar_effect a s1)
  then show ?thesis by blast
qed

lemma try_block_ignores_rmtree:
  "fst (try_block (w\<lparr>rmtree_raises := x\<rparr>) bucket tbl email nome bs ts d uid rid \<sigma>)
     = fst (try_block w bucket tbl email nome bs ts d uid rid \<sigma>)"
  unfolding try_block_def salvar_video_local_def criar_arquivo_zip_def upload_para_s3_def
    atualizar_registro_concluido_def extrair_frames_def obter_caminho_ffmpeg_def
  by (auto simp: Let_def split: sum.splits option.splits if_splits prod.splits)

lemma put_failure_skips_cleanup:
  assumes "env_set (S3_BUCKET w)" and "env_set (TABLE_NAME w)"
    and "extrair_dados_requisicao L ev = Inr (email, JStr nome, bs)"
    and "validar_extensao nome"
    and "setup_ok w" and "put_item_raises w = Some e"
  shows "log (snd (lambda_handler L w ev \<sigma>)) =
           log \<sigma> @ [Mkdtemp (mkdtemp_dir w),
                     PutItem (the (TABLE_NAME w)) (registro_inicial w email)]
       \<and> fst (lambda_handler L w ev \<sigma>) =
           (if is_Exception e
            then Inr (responder 500 (failure (msg_registro_inicial @ str_exc e)))
            else Inl e)"
  using handler_validated [OF assms(1-4), of \<sigma>]
    processar_put_fails [OF assms(5,6), of L email nome bs \<sigma>]
  by simp

lemma processar_cleanup_failure:
  assumes "is_Exception e"
  shows "fst (processar L (w\<lparr>rmtree_raises := Some e\<rparr>) email nome bs \<sigma>)
       = fst (processar L (w\<lparr>rmtree_raises := None\<rparr>) email nome bs \<sigma>)"
  using assms
  by (simp add: processar_def criar_registro_inicial_def Let_def case_prod_beta limpar_result
      try_block_ignores_rmtree split: option.splits sum.splits)

lemma cleanup_failure_swallowed:
  assumes "is_Exception e"
  shows "fst (lambda_handler L (w\<lparr>rmtree_raises := Some e\<rparr>) ev \<sigma>)
       = fst (lambda_handler L (w\<lparr>rmtree_raises := None\<rparr>) ev \<sigma>)"
  using processar_cleanup_failure [OF assms]
  by (simp add: lambda_handler_def split: sum.splits json.splits)

text \<open>
  Claim C1. The scratch directory is to be removed on every exit path after its
  creation, and a failing cleanup is not to change the response. The paths through the
  second \<^verbatim>\<open>try\<close> do so (\<open>cleanup_after_initial_write\<close>, \<open>cleanup_failure_swallowed\<close>),
  but the \<^verbatim>\<open>return\<close> of the first \<^verbatim>\<open>try\<close> stands before the \<^verbatim>\<open>finally\<close>: when the
  initial write to the record store fails, the handler answers 500 and the directory it
  created stays (\<open>put_failure_skips_cleanup\<close>). At the sample request, with a failing
  \<^verbatim>\<open>put_item\<close>:
\<close>

theorem scratch_directory_left_behind:
  "fst (lambda_handler sample_library
          ((sample_world 3)\<lparr>put_item_raises := Some (Exc ExceptionK ''Requested resource not found'')\<rparr>)
          (json_event json_text_ok) empty_state)
     = Inr (responder 500 (failure (msg_registro_inicial @ ''Requested resource not found'')))
   \<and> log (snd (lambda_handler sample_library
          ((sample_world 3)\<lparr>put_item_raises := Some (Exc ExceptionK ''Requested resource not found'')\<rparr>)
          (json_event json_text_ok) empty_state))
     = [Mkdtemp ''/tmp/proc_x1'',
        PutItem ''uploads'' (registro_inicial (sample_world 3) (JStr ''ana@fiap.br''))]
   \<and> Rmtree ''/tmp/proc_x1'' \<notin> set (log (snd (lambda_handler sample_library
          ((sample_world 3)\<lparr>put_item_raises := Some (Exc ExceptionK ''Requested resource not found'')\<rparr>)
          (json_event json_text_ok) empty_state)))"
proof -
  let ?w = "(sample_world 3)\<lparr>put_item_raises := Some (Exc ExceptionK ''Requested resource not found'')\<rparr>"
  have e: "env_set (S3_BUCKET ?w)" "env_set (TABLE_NAME ?w)"
    using sample_env [of 3] by simp_all
  have p: "put_item_raises ?w = Some (Exc ExceptionK ''Requested resource not found'')" by simp
  have su: "setup_ok ?w" using sample_setup_ok [of 3] by (simp add: setup_ok_def)
  have v: "mkdtemp_dir ?w = ''/tmp/proc_x1''" "the (TABLE_NAME ?w) = ''uploads''"
    "registro_inicial ?w (JStr ''ana@fiap.br'') = registro_inicial (sample_world 3) (JStr ''ana@fiap.br'')"
    by (simp_all add: sample_world_def registro_inicial_def)
  note l = put_failure_skips_cleanup [OF e sample_parsed sample_extension su p, of empty_state]
  show ?thesis
    using l unfolding v by (simp add: empty_state_def is_Exception_def)
qed

end
